theory Spec2Isabelle
  imports Complex_Main "HOL-Library.Sublist"
begin

section \<open>Data model\<close>

text \<open>
  The connection parameters are the dictionaries the dashboard builds: always the same six
  keys, all strings. \<open>migrate_table\<close> reads only \<open>database\<close> and \<open>schema\<close> itself; the
  whole dictionary goes to the connector.
\<close>

record conn_params =
  user :: string
  password :: string
  account :: string
  warehouse :: string
  database :: string
  schema :: string

text \<open>
  The result dictionary of \<open>migrate_table\<close>, with its five fixed keys. \<open>error\<close> is
  \<open>None\<close> or the text \<open>str(e)\<close> of the exception caught; \<open>rows_migrated\<close> is a
  Python integer; \<open>time_taken\<close> is the rounded wall-clock difference.
\<close>

record migration_result =
  table :: string
  success :: bool
  rows_migrated :: int
  error :: "string option"
  time_taken :: rat

type_synonym row = "string list"

section \<open>Python string operations\<close>

text \<open>
  \<open>str.replace(old, new)\<close> scans from the left and replaces the successive
  non-overlapping occurrences of \<open>old\<close>. With an empty \<open>old\<close>, Python puts \<open>new\<close>
  before every character and at the end.
\<close>

fun replace_scan :: "string \<Rightarrow> string \<Rightarrow> string \<Rightarrow> string" where
  "replace_scan old new [] = []"
| "replace_scan old new (c # cs) =
     (if old \<noteq> [] \<and> prefix old (c # cs)
      then new @ replace_scan old new (drop (length old - 1) cs)
      else c # replace_scan old new cs)"

definition str_replace :: "string \<Rightarrow> string \<Rightarrow> string \<Rightarrow> string" where
  "str_replace s old new =
     (if old = [] then new @ concat (map (\<lambda>c. c # new) s) else replace_scan old new s)"

text \<open>\<open>sep.join(xs)\<close>.\<close>

fun join :: "string \<Rightarrow> string list \<Rightarrow> string" where
  "join sep [] = []"
| "join sep [x] = x"
| "join sep (x # y # ys) = x @ sep @ join sep (y # ys)"

text \<open>The f-string \<open>f"{params['database']}.{params['schema']}"\<close>.\<close>

definition qualifier :: "conn_params \<Rightarrow> string" where
  "qualifier p = database p @ ''.'' @ schema p"

text \<open>
  Lines 40 to 43 of \<open>migrate_table\<close>: the fetched definition with the source qualifier
  replaced by the target qualifier.
\<close>

definition translate_ddl :: "conn_params \<Rightarrow> conn_params \<Rightarrow> string \<Rightarrow> string" where
  "translate_ddl source_params target_params create_table_statement =
     str_replace create_table_statement (qualifier source_params) (qualifier target_params)"

text \<open>
  What the specification says of the translation, in its own words: the output is the
  input with every occurrence of \<open>old\<close> replaced by \<open>new\<close>, and is otherwise identical.
  The input is cut at its successive leftmost occurrences of \<open>old\<close>; the pieces between
  them are kept as they are.
\<close>

inductive replaced_all :: "string \<Rightarrow> string \<Rightarrow> string \<Rightarrow> string \<Rightarrow> bool"
  for old new :: string where
  no_occurrence: "\<not> sublist old s \<Longrightarrow> replaced_all old new s s"
| leftmost: "\<not> sublist old (p @ butlast old) \<Longrightarrow> replaced_all old new r t \<Longrightarrow>
     replaced_all old new (p @ old @ r) (p @ new @ t)"

section \<open>The database connector\<close>

text \<open>
  The Snowflake connector is an external library. What \<open>migrate_table\<close> asks of it is a
  sequence of calls on two connections; the model keeps, for each connection, the list of
  the calls that succeeded, and says what every call returns.

  The statements are built by the source as f-strings. Each constructor stands for one of
  these f-strings and carries the values interpolated into it; the translated definition
  is sent as the text it is.
  \<^item> \<open>GetDDL db sch t\<close>: \<open>SELECT GET_DDL('TABLE', 'db.sch.t')\<close> (line 36);
  \<^item> \<open>DropTableIfExists db sch t\<close>: \<open>DROP TABLE IF EXISTS db.sch.t\<close> (line 46);
  \<^item> \<open>CreateStatement s\<close>: the translated definition \<open>s\<close> (line 47);
  \<^item> \<open>SelectColumnNames db t sch\<close>: the query of \<open>INFORMATION_SCHEMA.COLUMNS\<close> of
    database \<open>db\<close> for the table \<open>t\<close> of schema \<open>sch\<close> (line 51);
  \<^item> \<open>SelectPage column_list db sch t n k\<close>:
    \<open>SELECT column_list FROM db.sch.t LIMIT n OFFSET k\<close> (lines 59 to 62);
  \<^item> \<open>InsertInto db sch t column_list n\<close>: the insertion into \<open>db.sch.t\<close> with
    \<open>n\<close> placeholders (lines 68 to 71);
  \<^item> \<open>SelectTableNames db sch\<close>: the query of \<open>INFORMATION_SCHEMA.TABLES\<close> in
    \<open>get_tables\<close> (line 112).
\<close>

datatype stmt =
    GetDDL string string string
  | DropTableIfExists string string string
  | CreateStatement string
  | SelectColumnNames string string string
  | SelectPage string string string string int int
  | InsertInto string string string string nat
  | SelectTableNames string string

datatype call =
    Connect conn_params
  | Cursor
  | Execute stmt
  | FetchOne
  | FetchAll
  | ExecuteMany stmt "row list"
  | Commit
  | CloseCursor
  | CloseConnection

datatype side = Source | Target

text \<open>
  A table of the source database: where it lives, the text \<open>GET_DDL\<close> returns for it,
  its column names in catalog order, and its rows. The source is not written to while a
  run lasts, and a page \<open>LIMIT n OFFSET k\<close> of a table is the same slice of its rows
  every time it is asked for.
\<close>

record source_table =
  t_database :: string
  t_schema :: string
  t_name :: string
  t_ddl :: string
  t_columns :: "string list"
  t_rows :: "row list"

text \<open>
  The environment of a run. \<open>faults env t n\<close> is the text of the exception that the
  \<open>n\<close>-th connector call of the task migrating table \<open>t\<close> raises, if it raises one:
  any call inside the \<open>try\<close> block can fail. What a call raises is an \<open>Exception\<close>,
  as the connector's errors are; an interrupt of the process is not part of the model.
  The connector's \<open>close\<close> methods swallow their own errors and never raise.
  \<open>list_fault\<close> is the failure of the catalog query of \<open>get_tables\<close>, if any. \<open>elapsed env t n\<close> is the value of
  \<open>round(time.time() - start_time, 2)\<close> read after \<open>n\<close> connector calls of the task.
  \<open>created_table env s\<close> is the table, as database, schema and name, that the target
  database creates when it executes the statement text \<open>s\<close> on the target connection,
  if the text creates one: reading the text is the database's work, not the program's.
\<close>

record env =
  source_tables :: "source_table list"
  faults :: "string \<Rightarrow> nat \<Rightarrow> string option"
  list_fault :: "string option"
  elapsed :: "string \<Rightarrow> nat \<Rightarrow> rat"
  created_table :: "string \<Rightarrow> (string \<times> string \<times> string) option"

definition find_table :: "env \<Rightarrow> string \<Rightarrow> string \<Rightarrow> string \<Rightarrow> source_table option" where
  "find_table e db sch t =
     find (\<lambda>x. t_database x = db \<and> t_schema x = sch \<and> t_name x = t) (source_tables e)"

text \<open>
  What the source database answers to a statement: an error text or a result set.
  A negative \<open>LIMIT\<close> or \<open>OFFSET\<close> is rejected; \<open>LIMIT 0\<close> is accepted and
  returns no row.
\<close>

fun source_answer :: "env \<Rightarrow> stmt \<Rightarrow> string + row list" where
  "source_answer e (GetDDL db sch t) =
     (case find_table e db sch t of
        None \<Rightarrow> Inl ''Object does not exist or not authorized''
      | Some x \<Rightarrow> Inr [[t_ddl x]])"
| "source_answer e (SelectColumnNames db t sch) =
     (case find_table e db sch t of
        None \<Rightarrow> Inr []
      | Some x \<Rightarrow> Inr (map (\<lambda>c. [c]) (t_columns x)))"
| "source_answer e (SelectPage column_list db sch t page_limit page_offset) =
     (case find_table e db sch t of
        None \<Rightarrow> Inl ''Object does not exist or not authorized''
      | Some x \<Rightarrow>
          if page_limit < 0 \<or> page_offset < 0 then Inl ''Invalid LIMIT or OFFSET''
          else Inr (take (nat page_limit) (drop (nat page_offset) (t_rows x))))"
| "source_answer e (SelectTableNames db sch) =
     Inr (map (\<lambda>x. [t_name x])
            (filter (\<lambda>x. t_database x = db \<and> t_schema x = sch) (source_tables e)))"
| "source_answer e (DropTableIfExists db sch t) = Inr []"
| "source_answer e (CreateStatement s) = Inr []"
| "source_answer e (InsertInto db sch t column_list n) = Inr []"

text \<open>
  The state of one task: the number of connector calls it has made, the calls that
  succeeded on each connection, the result set its source cursor holds, and its local
  \<open>result\<close> dictionary.
\<close>

record run_state =
  calls :: nat
  source_log :: "call list"
  target_log :: "call list"
  result_set :: "row list"
  result :: migration_result

type_synonym 'a step = "run_state \<Rightarrow> (string + 'a) \<times> run_state"

text \<open>Statements in sequence inside the \<open>try\<close> block: an exception ends the block.\<close>

definition seq :: "'a step \<Rightarrow> ('a \<Rightarrow> 'b step) \<Rightarrow> 'b step" where
  "seq m k = (\<lambda>st. case m st of (Inl e, st') \<Rightarrow> (Inl e, st') | (Inr v, st') \<Rightarrow> k v st')"

definition lift :: "string + 'a \<Rightarrow> 'a step" where
  "lift r = (\<lambda>st. (r, st))"

definition record_call :: "side \<Rightarrow> call \<Rightarrow> run_state \<Rightarrow> run_state" where
  "record_call sd c st =
     (case sd of
        Source \<Rightarrow> st\<lparr>source_log := source_log st @ [c]\<rparr>
      | Target \<Rightarrow> st\<lparr>target_log := target_log st @ [c]\<rparr>)"

text \<open>
  One connector call of the task for table \<open>t\<close>: it raises the injected fault if there
  is one, else what the database answers; a call that returns is added to the log.
\<close>

definition invoke :: "env \<Rightarrow> string \<Rightarrow> side \<Rightarrow> call \<Rightarrow> string + 'a \<Rightarrow> 'a step" where
  "invoke e t sd c response st =
     (let st' = st\<lparr>calls := Suc (calls st)\<rparr> in
      case faults e t (calls st) of
        Some err \<Rightarrow> (Inl err, st')
      | None \<Rightarrow>
          (case response of
             Inl err \<Rightarrow> (Inl err, st')
           | Inr v \<Rightarrow> (Inr v, record_call sd c st')))"

definition source_execute :: "env \<Rightarrow> string \<Rightarrow> stmt \<Rightarrow> unit step" where
  "source_execute e t q st =
     (case invoke e t Source (Execute q) (source_answer e q) st of
        (Inl err, st') \<Rightarrow> (Inl err, st')
      | (Inr rows, st') \<Rightarrow> (Inr (), st'\<lparr>result_set := rows\<rparr>))"

definition fetchone :: "env \<Rightarrow> string \<Rightarrow> row option step" where
  "fetchone e t st =
     (case invoke e t Source FetchOne (Inr ()) st of
        (Inl err, st') \<Rightarrow> (Inl err, st')
      | (Inr _, st') \<Rightarrow>
          (case result_set st' of
             [] \<Rightarrow> (Inr None, st')
           | r # rs \<Rightarrow> (Inr (Some r), st'\<lparr>result_set := rs\<rparr>)))"

definition fetchall :: "env \<Rightarrow> string \<Rightarrow> row list step" where
  "fetchall e t st =
     (case invoke e t Source FetchAll (Inr ()) st of
        (Inl err, st') \<Rightarrow> (Inl err, st')
      | (Inr _, st') \<Rightarrow> (Inr (result_set st'), st'\<lparr>result_set := []\<rparr>))"

definition target_execute :: "env \<Rightarrow> string \<Rightarrow> stmt \<Rightarrow> unit step" where
  "target_execute e t q = invoke e t Target (Execute q) (Inr ())"

definition executemany :: "env \<Rightarrow> string \<Rightarrow> stmt \<Rightarrow> row list \<Rightarrow> unit step" where
  "executemany e t q rows = invoke e t Target (ExecuteMany q rows) (Inr ())"

definition commit :: "env \<Rightarrow> string \<Rightarrow> unit step" where
  "commit e t = invoke e t Target Commit (Inr ())"

text \<open>
  \<open>fetchone()[0]\<close> and \<open>row[0]\<close>: subscripting \<open>None\<close> is a TypeError, subscripting an
  empty row an IndexError; both are caught like any other exception.
\<close>

definition subscript0 :: "row option \<Rightarrow> string + string" where
  "subscript0 r =
     (case r of
        None \<Rightarrow> Inl (CHR 0x27 # ''NoneType'' @ CHR 0x27 # '' object is not subscriptable'')
      | Some [] \<Rightarrow> Inl ''tuple index out of range''
      | Some (x # xs) \<Rightarrow> Inr x)"

fun first_cells :: "row list \<Rightarrow> string + string list" where
  "first_cells [] = Inr []"
| "first_cells (r # rs) =
     (case subscript0 (Some r) of
        Inl err \<Rightarrow> Inl err
      | Inr x \<Rightarrow> (case first_cells rs of Inl err \<Rightarrow> Inl err | Inr xs \<Rightarrow> Inr (x # xs)))"

section \<open>Migrating one table\<close>

text \<open>
  The \<open>while True\<close> loop of \<open>migrate_table\<close> (lines 56 to 77). Each round asks the
  source for \<open>batch_size\<close> rows at \<open>offset\<close>, leaves the loop when no row comes back,
  and otherwise inserts the rows, commits, and only then advances \<open>offset\<close>,
  \<open>total_rows\<close> and \<open>result["rows_migrated"]\<close>.
\<close>

function copy_loop ::
  "env \<Rightarrow> string \<Rightarrow> conn_params \<Rightarrow> conn_params \<Rightarrow> int \<Rightarrow> string list \<Rightarrow> string \<Rightarrow>
   int \<Rightarrow> int \<Rightarrow> unit step" where
  "copy_loop e t source_params target_params batch_size columns column_list
     offset total_rows st =
     (case source_execute e t
             (SelectPage column_list (database source_params) (schema source_params) t
                batch_size offset) st of
        (Inl err, st1) \<Rightarrow> (Inl err, st1)
      | (Inr _, st1) \<Rightarrow>
     (case fetchall e t st1 of
        (Inl err, st2) \<Rightarrow> (Inl err, st2)
      | (Inr rows, st2) \<Rightarrow>
          if rows = [] then (Inr (), st2)
          else
     (case executemany e t
             (InsertInto (database target_params) (schema target_params) t column_list
                (length columns)) rows st2 of
        (Inl err, st3) \<Rightarrow> (Inl err, st3)
      | (Inr _, st3) \<Rightarrow>
     (case commit e t st3 of
        (Inl err, st4) \<Rightarrow> (Inl err, st4)
      | (Inr _, st4) \<Rightarrow>
          copy_loop e t source_params target_params batch_size columns column_list
            (offset + batch_size) (total_rows + int (length rows))
            (st4\<lparr>result := (result st4)\<lparr>rows_migrated := total_rows + int (length rows)\<rparr>\<rparr>)))))"
  by pat_completeness auto
termination
proof (relation "measure (\<lambda>(e, t, source_params, target_params, batch_size, columns,
          column_list, offset, total_rows, st).
        case find_table e (database source_params) (schema source_params) t of
          None \<Rightarrow> 0
        | Some x \<Rightarrow> length (t_rows x) - nat offset)")
  show "wf (measure (\<lambda>(e, t, source_params, target_params, batch_size, columns,
          column_list, offset, total_rows, st).
        case find_table e (database source_params) (schema source_params) t of
          None \<Rightarrow> 0
        | Some x \<Rightarrow> length (t_rows x) - nat offset))"
    by simp
next
  fix e :: env and t :: string and source_params target_params :: conn_params
    and batch_size offset total_rows :: int and columns :: "string list"
    and column_list :: string and st st1 st2 st3 st4 :: run_state
    and x xa :: "string + unit" and xb :: "string + row list" and rows :: "row list"
    and u ua ub :: unit and y :: "string + unit"
  assume ex: "(x, st1) = source_execute e t
        (SelectPage column_list (database source_params) (schema source_params) t
           batch_size offset) st"
    and "x = Inr u"
    and fa: "(xb, st2) = fetchall e t st1"
    and "xb = Inr rows"
    and ne: "rows \<noteq> []"
  from ex \<open>x = Inr u\<close> obtain tb where tb:
    "find_table e (database source_params) (schema source_params) t = Some tb"
    "0 \<le> batch_size" "0 \<le> offset"
    "result_set st1 = take (nat batch_size) (drop (nat offset) (t_rows tb))"
    by (auto simp: source_execute_def invoke_def Let_def record_call_def
        split: option.splits sum.splits if_splits)
  from fa \<open>xb = Inr rows\<close> have "rows = result_set st1"
    by (auto simp: fetchall_def invoke_def Let_def record_call_def
        split: option.splits sum.splits)
  with tb ne have "nat offset < length (t_rows tb)" and "0 < batch_size"
    by (auto simp: take_eq_Nil intro: ccontr)
  with tb show "((e, t, source_params, target_params, batch_size, columns, column_list,
       offset + batch_size, total_rows + int (length rows),
       st4\<lparr>result := (result st4)\<lparr>rows_migrated := total_rows + int (length rows)\<rparr>\<rparr>),
      (e, t, source_params, target_params, batch_size, columns, column_list, offset,
       total_rows, st))
    \<in> measure (\<lambda>(e, t, source_params, target_params, batch_size, columns,
          column_list, offset, total_rows, st).
        case find_table e (database source_params) (schema source_params) t of
          None \<Rightarrow> 0
        | Some x \<Rightarrow> length (t_rows x) - nat offset)"
    by (simp add: nat_add_distrib)
qed

declare copy_loop.simps [simp del]

text \<open>
  The first part of the \<open>try\<close> block (lines 29 to 53): the two connections and their
  cursors, the definition of the source table, its translation, the target table dropped
  and created again, and the column names. It returns \<open>columns\<close>.
\<close>

definition recreate_table ::
  "env \<Rightarrow> string \<Rightarrow> conn_params \<Rightarrow> conn_params \<Rightarrow> string list step" where
  "recreate_table e t source_params target_params =
     seq (invoke e t Source (Connect source_params) (Inr ())) (\<lambda>_.
     seq (invoke e t Source Cursor (Inr ())) (\<lambda>_.
     seq (invoke e t Target (Connect target_params) (Inr ())) (\<lambda>_.
     seq (invoke e t Target Cursor (Inr ())) (\<lambda>_.
     seq (source_execute e t (GetDDL (database source_params) (schema source_params) t)) (\<lambda>_.
     seq (fetchone e t) (\<lambda>r.
     seq (lift (subscript0 r)) (\<lambda>fetched.
     seq (target_execute e t
            (DropTableIfExists (database target_params) (schema target_params) t)) (\<lambda>_.
     seq (target_execute e t
            (CreateStatement (translate_ddl source_params target_params fetched))) (\<lambda>_.
     seq (commit e t) (\<lambda>_.
     seq (source_execute e t
            (SelectColumnNames (database source_params) t (schema source_params))) (\<lambda>_.
     seq (fetchall e t) (\<lambda>name_rows.
     lift (first_cells name_rows)))))))))))))"

text \<open>
  The whole \<open>try\<close> block (lines 29 to 79): the part above, the copy loop from offset 0
  with the column list joined by commas, and \<open>result["success"] = True\<close>.
\<close>

definition set_success :: "unit step" where
  "set_success st = (Inr (), st\<lparr>result := (result st)\<lparr>success := True\<rparr>\<rparr>)"

definition migrate_body ::
  "env \<Rightarrow> string \<Rightarrow> conn_params \<Rightarrow> conn_params \<Rightarrow> int \<Rightarrow> unit step" where
  "migrate_body e t source_params target_params batch_size =
     seq (recreate_table e t source_params target_params) (\<lambda>columns.
     seq (copy_loop e t source_params target_params batch_size columns
            (join '', '' columns) 0 0) (\<lambda>_.
     set_success))"

text \<open>
  The \<open>finally\<close> block: a cursor or connection is closed when its local variable was
  assigned, that is when the call creating it returned.
\<close>

fun is_connect :: "call \<Rightarrow> bool" where
  "is_connect (Connect p) = True"
| "is_connect c = False"

definition close_side :: "side \<Rightarrow> run_state \<Rightarrow> run_state" where
  "close_side sd st =
     (let lg = (case sd of Source \<Rightarrow> source_log st | Target \<Rightarrow> target_log st);
          st1 = (if Cursor \<in> set lg then record_call sd CloseCursor st else st)
      in if list_ex is_connect lg then record_call sd CloseConnection st1 else st1)"

definition initial_state :: "string \<Rightarrow> run_state" where
  "initial_state t =
     \<lparr>calls = 0, source_log = [], target_log = [], result_set = [],
      result = \<lparr>table = t, success = False, rows_migrated = 0, error = None, time_taken = 0\<rparr>\<rparr>"

text \<open>
  \<open>migrate_table\<close>: the \<open>try\<close> block, the handler that stores \<open>str(e)\<close>, and the
  \<open>finally\<close> block that closes, takes the time and returns \<open>result\<close>. The final state
  is returned with the result, for the statements about the two databases.
\<close>

definition migrate_table ::
  "env \<Rightarrow> string \<Rightarrow> conn_params \<Rightarrow> conn_params \<Rightarrow> int \<Rightarrow> migration_result \<times> run_state" where
  "migrate_table e t source_params target_params batch_size =
     (let (outcome, st1) = migrate_body e t source_params target_params batch_size
                             (initial_state t);
          st2 = (case outcome of
                   Inl err \<Rightarrow> st1\<lparr>result := (result st1)\<lparr>error := Some err\<rparr>\<rparr>
                 | Inr _ \<Rightarrow> st1);
          st3 = close_side Target (close_side Source st2);
          st4 = st3\<lparr>result := (result st3)\<lparr>time_taken := elapsed e t (calls st3)\<rparr>\<rparr>
      in (result st4, st4))"

section \<open>The target tables\<close>

text \<open>
  What the calls logged on the target connection do to the tables of the target database.
  A table is addressed by database, schema and name; the state gives the rows of every
  table there is. The connections are opened with the connector's defaults and the code
  never turns autocommit off, so the effect of a statement is durable as soon as the
  statement returns, and \<open>commit()\<close> and \<open>close()\<close> change nothing in the tables.
  \<open>DROP TABLE IF EXISTS\<close> removes the table it names. The creation statement makes the
  table that the database reads in its text, empty. \<open>executemany\<close> of an insertion adds
  its rows to the table the insertion names. Only the calls of the log count: a statement
  that raised has left the tables as they were.
\<close>

type_synonym address = "string \<times> string \<times> string"

type_synonym tables = "address \<rightharpoonup> row list"

fun apply_call :: "(string \<Rightarrow> address option) \<Rightarrow> call \<Rightarrow> tables \<Rightarrow> tables" where
  "apply_call cr (Execute (DropTableIfExists db sch t)) tabs = tabs((db, sch, t) := None)"
| "apply_call cr (Execute (CreateStatement s)) tabs =
     (case cr s of None \<Rightarrow> tabs | Some a \<Rightarrow> tabs(a \<mapsto> []))"
| "apply_call cr (ExecuteMany (InsertInto db sch t column_list n) rows) tabs =
     (case tabs (db, sch, t) of
        None \<Rightarrow> tabs
      | Some old \<Rightarrow> tabs((db, sch, t) \<mapsto> old @ rows))"
| "apply_call cr c tabs = tabs"

definition target_tables :: "env \<Rightarrow> tables \<Rightarrow> call list \<Rightarrow> tables" where
  "target_tables e prior lg = foldl (\<lambda>tabs c. apply_call (created_table e) c tabs) prior lg"

text \<open>
  The table \<open>migrate_table\<close> is to fill: the one named \<open>t\<close> in the database and schema
  of the target parameters; and its rows after the calls of a log, \<open>None\<close> when it does
  not exist.
\<close>

definition target_address :: "conn_params \<Rightarrow> string \<Rightarrow> address" where
  "target_address target_params t = (database target_params, schema target_params, t)"

definition target_table ::
  "env \<Rightarrow> conn_params \<Rightarrow> string \<Rightarrow> tables \<Rightarrow> call list \<Rightarrow> row list option" where
  "target_table e target_params t prior lg =
     target_tables e prior lg (target_address target_params t)"

text \<open>
  The rounds of the log, as the program counts them: the batches whose insertion a
  \<open>commit()\<close> that returned has followed, and the batches inserted since the last such
  \<open>commit()\<close>.
\<close>

fun note_call :: "call \<Rightarrow> row list list \<times> row list list \<Rightarrow> row list list \<times> row list list" where
  "note_call (ExecuteMany q rows) (committed, pending) = (committed, pending @ [rows])"
| "note_call Commit (committed, pending) = (committed @ pending, [])"
| "note_call c (committed, pending) = (committed, pending)"

definition rounds :: "call list \<Rightarrow> row list list \<times> row list list" where
  "rounds lg = foldl (\<lambda>s c. note_call c s) ([], []) lg"

definition committed_batches :: "call list \<Rightarrow> row list list" where
  "committed_batches lg = fst (rounds lg)"

fun is_create :: "call \<Rightarrow> bool" where
  "is_create (Execute (CreateStatement s)) = True"
| "is_create c = False"

fun is_drop :: "call \<Rightarrow> bool" where
  "is_drop (Execute (DropTableIfExists db sch t)) = True"
| "is_drop c = False"

text \<open>The pages asked of the source, as pairs of \<open>LIMIT\<close> and \<open>OFFSET\<close>, in order.\<close>

fun page_requests :: "call list \<Rightarrow> (int \<times> int) list" where
  "page_requests [] = []"
| "page_requests (Execute (SelectPage cl db sch t n k) # cs) = (n, k) # page_requests cs"
| "page_requests (c # cs) = page_requests cs"

text \<open>The batches handed to \<open>executemany\<close>, in order.\<close>

fun insert_batches :: "call list \<Rightarrow> row list list" where
  "insert_batches [] = []"
| "insert_batches (ExecuteMany q rows # cs) = rows # insert_batches cs"
| "insert_batches (c # cs) = insert_batches cs"

section \<open>Listing the tables and migrating them all\<close>

text \<open>
  \<open>get_tables\<close>: any exception is raised again with the prefix the source gives it.
\<close>

definition get_tables :: "env \<Rightarrow> conn_params \<Rightarrow> string + string list" where
  "get_tables e conn_params =
     (case (case list_fault e of
              Some err \<Rightarrow> Inl err
            | None \<Rightarrow>
                (case source_answer e
                        (SelectTableNames (database conn_params) (schema conn_params)) of
                   Inl err \<Rightarrow> Inl err
                 | Inr rows \<Rightarrow> first_cells rows)) of
        Inl err \<Rightarrow> Inl (''Error fetching tables: '' @ err)
      | Inr tables \<Rightarrow> Inr tables)"

text \<open>
  The thread pool. Future \<open>i\<close> is the task submitted \<open>i\<close>-th; \<open>finished\<close> maps the
  futures that are done to what they hold, an exception text or a value. The scheduler is
  a parameter: \<open>schedule\<close> lists the futures in the order in which their tasks complete.

  \<open>future.result()\<close> blocks until the future is done: \<open>await\<close> lets tasks complete, in
  the order of the schedule, until future \<open>i\<close> is among them. It is \<open>None\<close> when the
  schedule ends first, the call blocking forever.
\<close>

fun await ::
  "(nat \<Rightarrow> string + 'a) \<Rightarrow> nat \<Rightarrow> (nat \<rightharpoonup> string + 'a) \<Rightarrow> nat list \<Rightarrow>
   ((string + 'a) \<times> (nat \<rightharpoonup> string + 'a) \<times> nat list) option" where
  "await task i finished [] =
     (case finished i of None \<Rightarrow> None | Some v \<Rightarrow> Some (v, finished, []))"
| "await task i finished (j # js) =
     (case finished i of
        None \<Rightarrow> await task i (finished(j \<mapsto> task j)) js
      | Some v \<Rightarrow> Some (v, finished, j # js))"

datatype 'a outcome = Raised string | Blocked | Returned 'a

text \<open>
  The loop \<open>for future in future_to_table: results.append(future.result())\<close>. The
  dictionary is iterated in insertion order, the order of submission; an exception held by
  a future is raised again by \<open>result()\<close> and leaves the loop.
\<close>

fun collect ::
  "(nat \<Rightarrow> string + 'a) \<Rightarrow> nat list \<Rightarrow> (nat \<rightharpoonup> string + 'a) \<Rightarrow> nat list \<Rightarrow> 'a list \<Rightarrow>
   'a list outcome" where
  "collect task [] finished schedule results = Returned results"
| "collect task (i # futures) finished schedule results =
     (case await task i finished schedule of
        None \<Rightarrow> Blocked
      | Some (Inl err, finished', schedule') \<Rightarrow> Raised err
      | Some (Inr v, finished', schedule') \<Rightarrow>
          collect task futures finished' schedule' (results @ [v]))"

text \<open>
  \<open>migrate_all_tables\<close>. The tables are those \<open>get_tables\<close> lists for the source
  parameters; the function has no parameter for them. \<open>ThreadPoolExecutor\<close> raises a
  ValueError for a \<open>max_workers\<close> that is not positive. A task returns what
  \<open>migrate_table\<close> returns.
\<close>

definition migrate_all_tables ::
  "env \<Rightarrow> conn_params \<Rightarrow> conn_params \<Rightarrow> int \<Rightarrow> int \<Rightarrow> nat list \<Rightarrow>
   migration_result list outcome" where
  "migrate_all_tables e source_params target_params batch_size max_workers schedule =
     (case get_tables e source_params of
        Inl err \<Rightarrow> Raised err
      | Inr tables \<Rightarrow>
          if max_workers \<le> 0 then Raised ''max_workers must be greater than 0''
          else
            collect
              (\<lambda>i. Inr (fst (migrate_table e (tables ! i) source_params target_params
                               batch_size)))
              [0..<length tables] Map.empty
              (filter (\<lambda>j. j < length tables) schedule) [])"

text \<open>What a run of \<open>migrate_all_tables\<close> returned, when it returned.\<close>

fun returned :: "'a outcome \<Rightarrow> 'a option" where
  "returned (Returned x) = Some x"
| "returned r = None"

section \<open>Assertions about a run\<close>

text \<open>
  The rows of the table a task reads, none when the source has no such table.
\<close>

definition source_rows :: "env \<Rightarrow> conn_params \<Rightarrow> string \<Rightarrow> row list" where
  "source_rows e source_params t =
     (case find_table e (database source_params) (schema source_params) t of
        None \<Rightarrow> []
      | Some x \<Rightarrow> t_rows x)"

text \<open>The definition \<open>GET_DDL\<close> returns for that table.\<close>

definition source_ddl :: "env \<Rightarrow> conn_params \<Rightarrow> string \<Rightarrow> string" where
  "source_ddl e source_params t =
     (case find_table e (database source_params) (schema source_params) t of
        None \<Rightarrow> []
      | Some x \<Rightarrow> t_ddl x)"

text \<open>
  The calls on the target connection before the first round, when none of them fails.
\<close>

definition recreate_calls :: "env \<Rightarrow> string \<Rightarrow> conn_params \<Rightarrow> conn_params \<Rightarrow> call list" where
  "recreate_calls e t source_params target_params =
     [Connect target_params, Cursor,
      Execute (DropTableIfExists (database target_params) (schema target_params) t),
      Execute (CreateStatement
        (translate_ddl source_params target_params (source_ddl e source_params t))),
      Commit]"

text \<open>Inside the \<open>try\<close> block, \<open>result\<close> is as initialised but for the row count.\<close>

definition untouched :: "string \<Rightarrow> run_state \<Rightarrow> bool" where
  "untouched t st \<longleftrightarrow>
     table (result st) = t \<and> \<not> success (result st) \<and> error (result st) = None \<and>
     time_taken (result st) = 0"

text \<open>
  The translated definition names the target table: executing it creates the table
  \<open>migrate_table\<close> is to fill.
\<close>

definition names_target :: "env \<Rightarrow> conn_params \<Rightarrow> conn_params \<Rightarrow> string \<Rightarrow> bool" where
  "names_target e source_params target_params t \<longleftrightarrow>
     created_table e
       (translate_ddl source_params target_params (source_ddl e source_params t)) =
     Some (target_address target_params t)"

text \<open>
  The accounts of a task agree: the count in \<open>result\<close> is the number of rows in the
  batches a \<open>commit()\<close> has followed, these rows are the first rows of the source table,
  no batch is inserted before the creation statement, at most one batch awaits its
  \<open>commit()\<close>, and the target table holds what the log says, starting from the tables
  \<open>prior\<close> of before the run: before the creation statement it is dropped or as it
  was, and after it, when the translated definition names the target table, it holds the
  batches inserted.
\<close>

definition accounted ::
  "env \<Rightarrow> conn_params \<Rightarrow> conn_params \<Rightarrow> string \<Rightarrow> tables \<Rightarrow> run_state \<Rightarrow> bool" where
  "accounted e source_params target_params t prior st \<longleftrightarrow>
     rows_migrated (result st) = int (length (concat (committed_batches (target_log st)))) \<and>
     concat (committed_batches (target_log st)) =
       take (length (concat (committed_batches (target_log st))))
         (source_rows e source_params t) \<and>
     (\<not> list_ex is_create (target_log st) \<longrightarrow> rounds (target_log st) = ([], [])) \<and>
     length (snd (rounds (target_log st))) \<le> 1 \<and>
     (\<not> list_ex is_create (target_log st) \<longrightarrow>
      target_table e target_params t prior (target_log st) =
        (if list_ex is_drop (target_log st) then None
         else prior (target_address target_params t))) \<and>
     (list_ex is_create (target_log st) \<and> names_target e source_params target_params t \<longrightarrow>
      target_table e target_params t prior (target_log st) =
        Some (concat (committed_batches (target_log st) @ snd (rounds (target_log st)))))"

text \<open>
  Two environments are the same for the task of table \<open>t\<close> when they have the same
  source tables and give that task the same faults and the same times; the faults and
  times of the other tasks may differ.
\<close>

definition same_for :: "env \<Rightarrow> env \<Rightarrow> string \<Rightarrow> bool" where
  "same_for e e' t \<longleftrightarrow>
     source_tables e' = source_tables e \<and> faults e' t = faults e t \<and>
     elapsed e' t = elapsed e t"

section \<open>An example schema\<close>

text \<open>
  The scenario of the specification: a source schema with the tables \<open>orders\<close>, of five
  rows, and \<open>customers\<close>, of none, migrated with batch size 2. The definition of
  \<open>orders\<close> names its schema; that of \<open>customers\<close> does not.
\<close>

definition demo_source :: conn_params where
  "demo_source = \<lparr>user = ''u'', password = ''p'', account = ''a'', warehouse = ''w'',
     database = ''SDB'', schema = ''S''\<rparr>"

definition demo_target :: conn_params where
  "demo_target = \<lparr>user = ''u'', password = ''p'', account = ''a'', warehouse = ''w'',
     database = ''TDB'', schema = ''T''\<rparr>"

definition orders :: source_table where
  "orders = \<lparr>t_database = ''SDB'', t_schema = ''S'', t_name = ''orders'',
     t_ddl = ''create table SDB.S.orders (id int)'', t_columns = [''id''],
     t_rows = [[''1''], [''2''], [''3''], [''4''], [''5'']]\<rparr>"

definition customers :: source_table where
  "customers = \<lparr>t_database = ''SDB'', t_schema = ''S'', t_name = ''customers'',
     t_ddl = ''create table customers (id int)'', t_columns = [''id''], t_rows = []\<rparr>"

text \<open>
  What the target database of the example reads in the two definitions: a name without
  qualifier is a table of the database and schema of the target connection.
\<close>

definition demo_created :: "string \<Rightarrow> address option" where
  "demo_created s =
     (if s = ''create table TDB.T.orders (id int)'' then Some (''TDB'', ''T'', ''orders'')
      else if s = ''create table customers (id int)'' then Some (''TDB'', ''T'', ''customers'')
      else None)"

text \<open>Before the run, the target schema has a table \<open>orders\<close> of one row.\<close>

definition demo_prior :: tables where
  "demo_prior a = (if a = (''TDB'', ''T'', ''orders'') then Some [[''old'']] else None)"

text \<open>No call fails.\<close>

definition demo_env :: env where
  "demo_env = \<lparr>source_tables = [orders, customers], faults = (\<lambda>t n. None),
     list_fault = None, elapsed = (\<lambda>t n. 0), created_table = demo_created\<rparr>"

text \<open>
  The second \<open>commit\<close> of the copy of \<open>orders\<close>, its call number 18, fails; nothing
  else does.
\<close>

definition failing_env :: env where
  "failing_env = \<lparr>source_tables = [orders, customers],
     faults = (\<lambda>t n. if t = ''orders'' \<and> n = 18 then Some ''commit failed'' else None),
     list_fault = None, elapsed = (\<lambda>t n. 0), created_table = demo_created\<rparr>"

text \<open>The source cannot be reached: the first call of every task fails.\<close>

definition unreachable_env :: env where
  "unreachable_env = \<lparr>source_tables = [orders, customers],
     faults = (\<lambda>t n. if n = 0 then Some ''connection refused'' else None),
     list_fault = None, elapsed = (\<lambda>t n. 0), created_table = demo_created\<rparr>"

section \<open>String replacement\<close>

lemma replaced_all_Cons:
  assumes "replaced_all old new cs t" and "\<not> prefix old (c # cs)"
  shows "replaced_all old new (c # cs) (c # t)"
  using assms
proof (cases rule: replaced_all.cases)
  case no_occurrence
  with assms(2) have "\<not> sublist old (c # cs)"
    by (simp add: sublist_Cons_right)
  with no_occurrence show ?thesis
    by (simp add: replaced_all.no_occurrence)
next
  case (leftmost p r t')
  have "prefix (c # p @ butlast old) (c # cs)"
  proof (cases old rule: rev_cases)
    case Nil
    with leftmost show ?thesis by simp
  next
    case (snoc ys y)
    with leftmost show ?thesis by simp
  qed
  with assms(2) have "\<not> prefix old (c # p @ butlast old)"
    using prefix_order.trans by blast
  with leftmost(3) have "\<not> sublist old ((c # p) @ butlast old)"
    by (simp add: sublist_Cons_right)
  from replaced_all.leftmost [OF this leftmost(4)] leftmost(1,2) show ?thesis
    by simp
qed

lemma replace_scan_replaced_all:
  "old \<noteq> [] \<Longrightarrow> replaced_all old new s (replace_scan old new s)"
proof (induction old new s rule: replace_scan.induct)
  case (1 old new)
  then show ?case
    by (simp add: replaced_all.no_occurrence)
next
  case (2 old new c cs)
  show ?case
  proof (cases "prefix old (c # cs)")
    case True
    then obtain r where r: "c # cs = old @ r"
      by (auto simp: prefix_def)
    with \<open>old \<noteq> []\<close> have dr: "drop (length old - 1) cs = r"
      by (cases old) auto
    have "\<not> sublist old ([] @ butlast old)"
      using \<open>old \<noteq> []\<close> sublist_length_le [of old "butlast old"] by (cases old) auto
    moreover have "replaced_all old new r (replace_scan old new r)"
      using "2.IH"(1) "2.prems" True dr by simp
    ultimately have "replaced_all old new ([] @ old @ r) ([] @ new @ replace_scan old new r)"
      by (rule replaced_all.leftmost)
    moreover have "replace_scan old new (c # cs) = new @ replace_scan old new r"
      using True "2.prems" dr by simp
    ultimately show ?thesis
      by (simp add: r)
  next
    case False
    with "2.IH"(2) "2.prems" have "replaced_all old new cs (replace_scan old new cs)"
      by simp
    from replaced_all_Cons [OF this False] False show ?thesis by simp
  qed
qed

lemma replace_scan_absent: "\<not> sublist old s \<Longrightarrow> replace_scan old new s = s"
  by (induction s) (simp_all add: sublist_Cons_right)

lemma qualifier_nonempty: "qualifier p \<noteq> []"
  by (simp add: qualifier_def)

section \<open>The target log\<close>

lemma rounds_snoc: "rounds (lg @ [c]) = note_call c (rounds lg)"
  by (simp add: rounds_def)

lemma target_tables_snoc:
  "target_tables e prior (lg @ [c]) = apply_call (created_table e) c (target_tables e prior lg)"
  by (simp add: target_tables_def)

section \<open>Running the steps\<close>

lemma first_cells_singletons: "first_cells (map (\<lambda>c. [c]) cs) = Inr cs"
  by (induction cs) (auto simp: subscript0_def)

lemma seq_Inr_iff:
  "seq m k st = (Inr w, st') \<longleftrightarrow> (\<exists>v s1. m st = (Inr v, s1) \<and> k v s1 = (Inr w, st'))"
  by (auto simp: seq_def split: prod.splits sum.splits)

lemma seq_Inl_iff:
  "seq m k st = (Inl err, st') \<longleftrightarrow>
     m st = (Inl err, st') \<or> (\<exists>v s1. m st = (Inr v, s1) \<and> k v s1 = (Inl err, st'))"
  by (auto simp: seq_def split: prod.splits sum.splits)

lemma invoke_Inr_iff:
  "invoke e t sd c resp st = (Inr v, st') \<longleftrightarrow>
     faults e t (calls st) = None \<and> resp = Inr v \<and>
     st' = record_call sd c (st\<lparr>calls := Suc (calls st)\<rparr>)"
  by (auto simp: invoke_def Let_def split: option.splits sum.splits)

lemma invoke_Inl_iff:
  "invoke e t sd c resp st = (Inl err, st') \<longleftrightarrow>
     (faults e t (calls st) = Some err \<or> faults e t (calls st) = None \<and> resp = Inl err) \<and>
     st' = st\<lparr>calls := Suc (calls st)\<rparr>"
  by (auto simp: invoke_def Let_def split: option.splits sum.splits)

lemma source_execute_Inr_iff:
  "source_execute e t q st = (Inr u, st') \<longleftrightarrow>
     faults e t (calls st) = None \<and>
     (\<exists>rows. source_answer e q = Inr rows \<and>
        st' = st\<lparr>calls := Suc (calls st), source_log := source_log st @ [Execute q],
                 result_set := rows\<rparr>)"
  by (cases "invoke e t Source (Execute q) (source_answer e q) st")
    (auto simp: source_execute_def invoke_Inr_iff invoke_Inl_iff record_call_def split: sum.splits)

lemma source_execute_Inl_iff:
  "source_execute e t q st = (Inl err, st') \<longleftrightarrow>
     (faults e t (calls st) = Some err \<or>
      faults e t (calls st) = None \<and> source_answer e q = Inl err) \<and>
     st' = st\<lparr>calls := Suc (calls st)\<rparr>"
  by (auto simp: source_execute_def invoke_Inl_iff invoke_Inr_iff split: prod.splits sum.splits)

lemma fetchall_Inr_iff:
  "fetchall e t st = (Inr rows, st') \<longleftrightarrow>
     faults e t (calls st) = None \<and> rows = result_set st \<and>
     st' = st\<lparr>calls := Suc (calls st), source_log := source_log st @ [FetchAll],
              result_set := []\<rparr>"
  by (cases "invoke e t Source FetchAll (Inr ()) st")
    (auto simp: fetchall_def invoke_Inr_iff invoke_Inl_iff record_call_def split: sum.splits)

lemma fetchall_Inl_iff:
  "fetchall e t st = (Inl err, st') \<longleftrightarrow>
     faults e t (calls st) = Some err \<and> st' = st\<lparr>calls := Suc (calls st)\<rparr>"
  by (auto simp: fetchall_def invoke_Inl_iff invoke_Inr_iff split: prod.splits sum.splits)

lemma fetchone_Inr_iff:
  "fetchone e t st = (Inr v, st') \<longleftrightarrow>
     faults e t (calls st) = None \<and>
     (case result_set st of
        [] \<Rightarrow> v = None \<and>
          st' = st\<lparr>calls := Suc (calls st), source_log := source_log st @ [FetchOne]\<rparr>
      | r # rs \<Rightarrow> v = Some r \<and>
          st' = st\<lparr>calls := Suc (calls st), source_log := source_log st @ [FetchOne],
                   result_set := rs\<rparr>)"
  by (cases "invoke e t Source FetchOne (Inr ()) st")
    (auto simp: fetchone_def invoke_Inr_iff invoke_Inl_iff record_call_def
      split: sum.splits list.splits)

lemma fetchone_Inl_iff:
  "fetchone e t st = (Inl err, st') \<longleftrightarrow>
     faults e t (calls st) = Some err \<and> st' = st\<lparr>calls := Suc (calls st)\<rparr>"
  by (auto simp: fetchone_def invoke_Inl_iff invoke_Inr_iff
      split: prod.splits sum.splits list.splits)

lemma lift_iff: "lift r st = (r', st') \<longleftrightarrow> r' = r \<and> st' = st"
  by (auto simp: lift_def)

lemma source_answer_GetDDL_Inr:
  "source_answer e (GetDDL db sch t) = Inr rows \<longleftrightarrow>
     (\<exists>x. find_table e db sch t = Some x \<and> rows = [[t_ddl x]])"
  by (auto split: option.splits)

lemma source_answer_columns_Inr:
  "source_answer e (SelectColumnNames db t sch) = Inr rows \<longleftrightarrow>
     rows = (case find_table e db sch t of None \<Rightarrow> [] | Some x \<Rightarrow> map (\<lambda>c. [c]) (t_columns x))"
  by (auto split: option.splits)

lemmas exec_Inr = seq_Inr_iff invoke_Inr_iff source_execute_Inr_iff fetchall_Inr_iff
  fetchone_Inr_iff lift_iff target_execute_def executemany_def commit_def record_call_def

lemma recreate_table_Inr:
  assumes "recreate_table e t sp tp (initial_state t) = (Inr columns, st1)"
  shows "\<exists>x. find_table e (database sp) (schema sp) t = Some x \<and> columns = t_columns x \<and>
     st1 = \<lparr>calls = 11,
       source_log = [Connect sp, Cursor, Execute (GetDDL (database sp) (schema sp) t), FetchOne,
         Execute (SelectColumnNames (database sp) t (schema sp)), FetchAll],
       target_log = recreate_calls e t sp tp, result_set = [],
       result = result (initial_state t)\<rparr>"
  using assms unfolding recreate_table_def
  by (simp add: exec_Inr source_answer_GetDDL_Inr source_answer_columns_Inr initial_state_def
      subscript0_def first_cells_singletons recreate_calls_def source_ddl_def del: source_answer.simps
      cong: conj_cong)
   (auto  simp: first_cells_singletons)


lemmas exec_Inl = seq_Inl_iff invoke_Inl_iff source_execute_Inl_iff fetchall_Inl_iff
  fetchone_Inl_iff

lemma recreate_table_Inl:
  assumes "recreate_table e t sp tp (initial_state t) = (Inl err, st1)"
  shows "result st1 = result (initial_state t) \<and>
     prefix (target_log st1) (recreate_calls e t sp tp) \<and>
     (list_ex is_create (target_log st1) \<longrightarrow>
        find_table e (database sp) (schema sp) t \<noteq> None) \<and>
     page_requests (source_log st1) = []"
  using assms unfolding recreate_table_def
  by (simp add: exec_Inr exec_Inl source_answer_GetDDL_Inr source_answer_columns_Inr
      initial_state_def subscript0_def recreate_calls_def source_ddl_def
      del: source_answer.simps cong: conj_cong)
    (auto simp: first_cells_singletons split: option.splits)

section \<open>The copy loop\<close>

lemma source_answer_page_Inr:
  assumes "source_answer e (SelectPage cl (database sp) (schema sp) t B off) = Inr rows"
  shows "0 \<le> B \<and> 0 \<le> off \<and> rows = take (nat B) (drop (nat off) (source_rows e sp t))"
  using assms by (auto simp: source_rows_def split: option.splits if_splits)

lemma source_execute_frame:
  "source_execute e t q st = (r, st') \<Longrightarrow> result st' = result st \<and> target_log st' = target_log st"
  by (cases r) (auto simp: source_execute_Inl_iff source_execute_Inr_iff)

lemma fetchall_frame:
  "fetchall e t st = (r, st') \<Longrightarrow> result st' = result st \<and> target_log st' = target_log st"
  by (cases r) (auto simp: fetchall_Inl_iff fetchall_Inr_iff)

lemma target_call_Inl_frame:
  "invoke e t Target c (Inr ()) st = (Inl err, st') \<Longrightarrow>
     result st' = result st \<and> target_log st' = target_log st"
  by (auto simp: invoke_Inl_iff)

lemma target_call_Inr_frame:
  "invoke e t Target c (Inr ()) st = (Inr u, st') \<Longrightarrow>
     result st' = result st \<and> target_log st' = target_log st @ [c]"
  by (auto simp: invoke_Inr_iff record_call_def)

lemma untouched_cong: "result st' = result st \<Longrightarrow> untouched t st' = untouched t st"
  by (simp add: untouched_def)

lemma accounted_cong:
  "result st' = result st \<Longrightarrow> target_log st' = target_log st \<Longrightarrow>
     accounted e sp tp t prior st' = accounted e sp tp t prior st"
  by (simp add: accounted_def)

lemma copy_loop_cases:
  assumes "copy_loop e t sp tp B cols cl off tot st = (r, st')"
  obtains
    (execute_fails) err where "r = Inl err"
      "source_execute e t (SelectPage cl (database sp) (schema sp) t B off) st = (Inl err, st')"
  | (fetch_fails) err u s1 where "r = Inl err"
      "source_execute e t (SelectPage cl (database sp) (schema sp) t B off) st = (Inr u, s1)"
      "fetchall e t s1 = (Inl err, st')"
  | (no_rows) u s1 where "r = Inr ()"
      "source_execute e t (SelectPage cl (database sp) (schema sp) t B off) st = (Inr u, s1)"
      "fetchall e t s1 = (Inr [], st')"
  | (insert_fails) err u s1 rows s2 where "r = Inl err" "rows \<noteq> []"
      "source_execute e t (SelectPage cl (database sp) (schema sp) t B off) st = (Inr u, s1)"
      "fetchall e t s1 = (Inr rows, s2)"
      "executemany e t (InsertInto (database tp) (schema tp) t cl (length cols)) rows s2
         = (Inl err, st')"
  | (commit_fails) err u s1 rows s2 u' s3 where "r = Inl err" "rows \<noteq> []"
      "source_execute e t (SelectPage cl (database sp) (schema sp) t B off) st = (Inr u, s1)"
      "fetchall e t s1 = (Inr rows, s2)"
      "executemany e t (InsertInto (database tp) (schema tp) t cl (length cols)) rows s2
         = (Inr u', s3)"
      "commit e t s3 = (Inl err, st')"
  | (next_round) u s1 rows s2 u' s3 u'' s4 where "rows \<noteq> []"
      "source_execute e t (SelectPage cl (database sp) (schema sp) t B off) st = (Inr u, s1)"
      "fetchall e t s1 = (Inr rows, s2)"
      "executemany e t (InsertInto (database tp) (schema tp) t cl (length cols)) rows s2
         = (Inr u', s3)"
      "commit e t s3 = (Inr u'', s4)"
      "copy_loop e t sp tp B cols cl (off + B) (tot + int (length rows))
         (s4\<lparr>result := (result s4)\<lparr>rows_migrated := tot + int (length rows)\<rparr>\<rparr>) = (r, st')"
proof -
  let ?q = "SelectPage cl (database sp) (schema sp) t B off"
  let ?ins = "InsertInto (database tp) (schema tp) t cl (length cols)"
  obtain x s1 where ex: "source_execute e t ?q st = (x, s1)"
    by (cases "source_execute e t ?q st")
  show thesis
  proof (cases x)
    case (Inl err)
    with ex assms have "r = Inl err" "st' = s1"
      by (subst (asm) copy_loop.simps, simp)+
    with ex Inl show thesis by (intro execute_fails) auto
  next
    case (Inr u)
    note x = this
    obtain y s2 where fa: "fetchall e t s1 = (y, s2)"
      by (cases "fetchall e t s1")
    show thesis
    proof (cases y)
      case (Inl err)
      with ex x fa assms have "r = Inl err" "st' = s2"
        by (subst (asm) copy_loop.simps, simp)+
      with ex x fa Inl show thesis by (intro fetch_fails) auto
    next
      case (Inr rows)
      note y = this
      show thesis
      proof (cases "rows = []")
        case True
        with ex x fa y assms have "r = Inr ()" "st' = s2"
          by (subst (asm) copy_loop.simps, simp)+
        with ex x fa y True show thesis by (intro no_rows) auto
      next
        case False
        obtain z s3 where em: "executemany e t ?ins rows s2 = (z, s3)"
          by (cases "executemany e t ?ins rows s2")
        show thesis
        proof (cases z)
          case (Inl err)
          with ex x fa y False em assms have "r = Inl err" "st' = s3"
            by (subst (asm) copy_loop.simps, simp)+
          with ex x fa y False em Inl show thesis by (intro insert_fails) auto
        next
          case (Inr u')
          note z = this
          obtain w s4 where cm: "commit e t s3 = (w, s4)"
            by (cases "commit e t s3")
          show thesis
          proof (cases w)
            case (Inl err)
            with ex x fa y False em z cm assms have "r = Inl err" "st' = s4"
              by (subst (asm) copy_loop.simps, simp)+
            with ex x fa y False em z cm Inl show thesis by (intro commit_fails) auto
          next
            case (Inr u'')
            with ex x fa y False em z cm assms
            have "copy_loop e t sp tp B cols cl (off + B) (tot + int (length rows))
               (s4\<lparr>result := (result s4)\<lparr>rows_migrated := tot + int (length rows)\<rparr>\<rparr>)
               = (r, st')"
              by (subst (asm) copy_loop.simps) simp
            with ex x fa y False em z cm Inr show thesis by (intro next_round) auto
          qed
        qed
      qed
    qed
  qed
qed

lemma take_page_append:
  fixes off B :: int
  assumes "0 \<le> off" "0 \<le> B"
  shows "take (nat off) R @ take (nat B) (drop (nat off) R) = take (nat (off + B)) R"
proof -
  have "nat (off + B) = nat off + nat B"
    using assms by (simp add: nat_add_distrib)
  then show ?thesis
    by (simp only: take_add)
qed

lemma accounted_pending:
  assumes "accounted e sp tp t prior st" and "snd (rounds (target_log st)) = []"
    and "list_ex is_create (target_log st)"
    and "result st' = result st"
    and "target_log st' =
      target_log st @ [ExecuteMany (InsertInto (database tp) (schema tp) t cl n) rows]"
  shows "accounted e sp tp t prior st'"
proof -
  obtain bs where bs: "rounds (target_log st) = (bs, [])"
    using assms(2) by (cases "rounds (target_log st)") auto
  have r': "rounds (target_log st') = (bs, [rows])"
    by (simp add: assms(5) rounds_snoc bs)
  have cr: "list_ex is_create (target_log st')"
    using assms(3,5) by simp
  have tt: "target_table e tp t prior (target_log st') = Some (concat bs @ rows)"
    if "names_target e sp tp t"
  proof -
    from assms(1,3) bs that
    have "target_tables e prior (target_log st) (target_address tp t) = Some (concat bs)"
      by (simp add: accounted_def committed_batches_def target_table_def)
    then show ?thesis
      by (simp add: target_table_def assms(5) target_tables_snoc target_address_def)
  qed
  from assms(1) bs have "rows_migrated (result st) = int (length (concat bs))"
    and "concat bs = take (length (concat bs)) (source_rows e sp t)"
    by (simp_all add: accounted_def committed_batches_def)
  with r' tt cr assms(4) show ?thesis
    by (simp add: accounted_def committed_batches_def)
qed

lemma accounted_committed:
  assumes "accounted e sp tp t prior st" and "snd (rounds (target_log st)) = []"
    and "list_ex is_create (target_log st)"
    and "concat (committed_batches (target_log st)) = take (nat off) (source_rows e sp t)"
    and "0 \<le> off" and "0 \<le> B"
    and "rows = take (nat B) (drop (nat off) (source_rows e sp t))"
    and "result s4 = result st"
    and "target_log s4 =
      target_log st @ [ExecuteMany (InsertInto (database tp) (schema tp) t cl n) rows, Commit]"
    and "tot = int (length (concat (committed_batches (target_log st))))"
    and "s = s4\<lparr>result := (result s4)\<lparr>rows_migrated := tot + int (length rows)\<rparr>\<rparr>"
  shows "accounted e sp tp t prior s" and "snd (rounds (target_log s)) = []"
    and "list_ex is_create (target_log s)"
    and "concat (committed_batches (target_log s)) = take (nat (off + B)) (source_rows e sp t)"
    and "tot + int (length rows) = int (length (concat (committed_batches (target_log s))))"
proof -
  let ?R = "source_rows e sp t"
  let ?ins = "InsertInto (database tp) (schema tp) t cl n"
  obtain bs where bs: "rounds (target_log st) = (bs, [])"
    using assms(2) by (cases "rounds (target_log st)") auto
  have lg: "target_log s = (target_log st @ [ExecuteMany ?ins rows]) @ [Commit]"
    by (simp add: assms(9,11))
  have r': "rounds (target_log s) = (bs @ [rows], [])"
    by (simp only: lg rounds_snoc bs note_call.simps append_Nil)
  have tt: "target_table e tp t prior (target_log s) = Some (concat bs @ rows)"
    if "names_target e sp tp t"
  proof -
    from assms(1,3) bs that
    have "target_tables e prior (target_log st) (target_address tp t) = Some (concat bs)"
      by (simp add: accounted_def committed_batches_def target_table_def)
    then show ?thesis
      unfolding target_table_def lg target_tables_snoc by (simp add: target_address_def)
  qed
  have cb: "concat bs = take (nat off) ?R"
    using assms(4) bs by (simp add: committed_batches_def)
  have cat: "concat (bs @ [rows]) = take (nat (off + B)) ?R"
    using take_page_append [OF assms(5,6), of ?R] by (simp add: cb assms(7))
  have len: "tot = int (length (concat bs))"
    using assms(10) bs by (simp add: committed_batches_def)
  show "snd (rounds (target_log s)) = []"
    by (simp add: r')
  show cr: "list_ex is_create (target_log s)"
    using assms(3) by (simp add: lg)
  show c': "concat (committed_batches (target_log s)) = take (nat (off + B)) ?R"
    by (simp only: committed_batches_def r' fst_conv cat)
  show l': "tot + int (length rows) = int (length (concat (committed_batches (target_log s))))"
    by (simp add: committed_batches_def r' len)
  have rm: "rows_migrated (result s) = tot + int (length rows)"
    by (simp add: assms(11))
  have pre: "take (nat (off + B)) ?R = take (length (take (nat (off + B)) ?R)) ?R"
    by (simp add: min_def)
  show "accounted e sp tp t prior s"
    unfolding accounted_def
  proof (intro conjI)
    show "rows_migrated (result s) =
        int (length (concat (committed_batches (target_log s))))"
      by (simp only: rm l')
    show "concat (committed_batches (target_log s)) =
        take (length (concat (committed_batches (target_log s)))) ?R"
      using pre by (simp only: c')
    show "\<not> list_ex is_create (target_log s) \<longrightarrow> rounds (target_log s) = ([], [])"
      using cr by simp
    show "length (snd (rounds (target_log s))) \<le> 1"
      by (simp add: r')
    show "\<not> list_ex is_create (target_log s) \<longrightarrow>
        target_table e tp t prior (target_log s) =
        (if list_ex is_drop (target_log s) then None else prior (target_address tp t))"
      using cr by simp
    show "list_ex is_create (target_log s) \<and> names_target e sp tp t \<longrightarrow>
        target_table e tp t prior (target_log s) =
        Some (concat (committed_batches (target_log s) @ snd (rounds (target_log s))))"
      using tt by (simp add: committed_batches_def r')
  qed
qed

lemma page_fetched:
  assumes "source_execute e t (SelectPage cl (database sp) (schema sp) t B off) st = (Inr u, s1)"
  shows "result_set s1 = take (nat B) (drop (nat off) (source_rows e sp t))" and "0 \<le> B"
    and "0 \<le> off"
proof -
  from assms obtain rows where
    a: "source_answer e (SelectPage cl (database sp) (schema sp) t B off) = Inr rows"
    and s1: "result_set s1 = rows"
    by (auto simp: source_execute_Inr_iff simp del: source_answer.simps)
  from source_answer_page_Inr [OF a] s1
  show "result_set s1 = take (nat B) (drop (nat off) (source_rows e sp t))" and "0 \<le> B"
    and "0 \<le> off"
    by simp_all
qed

lemma kept:
  assumes "untouched t st" and "accounted e sp tp t prior st"
    and "list_ex is_create (target_log st)"
    and "result st' = result st" and "target_log st' = target_log st"
  shows "untouched t st'" and "accounted e sp tp t prior st'"
    and "list_ex is_create (target_log st')"
  using assms untouched_cong [OF assms(4), of t]
    accounted_cong [OF assms(4,5), of e sp tp t prior]
  by simp_all

lemma copy_loop_accounted:
  assumes "copy_loop e t sp tp B cols cl off tot st = (r, st')"
    and "untouched t st" and "accounted e sp tp t prior st"
    and "snd (rounds (target_log st)) = []" and "list_ex is_create (target_log st)"
    and "tot = int (length (concat (committed_batches (target_log st))))"
    and "concat (committed_batches (target_log st)) = take (nat off) (source_rows e sp t)"
    and "0 \<le> off"
  shows "untouched t st' \<and> accounted e sp tp t prior st' \<and>
     list_ex is_create (target_log st') \<and>
     (\<forall>u. r = Inr u \<longrightarrow> snd (rounds (target_log st')) = [] \<and>
        (0 < B \<longrightarrow> concat (committed_batches (target_log st')) = source_rows e sp t))"
  using assms
proof (induction e t sp tp B cols cl off tot st rule: copy_loop.induct)
  case (1 e t sp tp B cols cl off tot st)
  let ?R = "source_rows e sp t"
  let ?q = "SelectPage cl (database sp) (schema sp) t B off"
  let ?ins = "InsertInto (database tp) (schema tp) t cl (length cols)"
  note inv = "1.prems"(2-8)
  from "1.prems"(1) show ?case
  proof (cases rule: copy_loop_cases)
    case (execute_fails err)
    have "result st' = result st" "target_log st' = target_log st"
      using source_execute_frame [OF execute_fails(2)] by simp_all
    from kept [OF inv(1,2,4) this] execute_fails(1) show ?thesis
      by simp
  next
    case (fetch_fails err u s1)
    have "result st' = result st" "target_log st' = target_log st"
      using source_execute_frame [OF fetch_fails(2)] fetchall_frame [OF fetch_fails(3)]
      by simp_all
    from kept [OF inv(1,2,4) this] fetch_fails(1) show ?thesis
      by simp
  next
    case (no_rows u s1)
    have fr: "result st' = result st" "target_log st' = target_log st"
      using source_execute_frame [OF no_rows(2)] fetchall_frame [OF no_rows(3)]
      by simp_all
    note page = page_fetched [OF no_rows(2)]
    from no_rows(3) have "result_set s1 = []"
      by (simp add: fetchall_Inr_iff)
    with page have "0 < B \<longrightarrow> length ?R \<le> nat off"
      by (auto simp: take_eq_Nil)
    then have "0 < B \<longrightarrow> take (nat off) ?R = ?R"
      by simp
    with inv(6) have "0 < B \<longrightarrow> concat (committed_batches (target_log st')) = ?R"
      by (simp only: fr(2))
    moreover have "snd (rounds (target_log st')) = []"
      using inv(3) by (simp only: fr(2))
    ultimately show ?thesis
      using kept [OF inv(1,2,4) fr] by simp
  next
    case (insert_fails err u s1 rows s2)
    have "result st' = result st" "target_log st' = target_log st"
      using source_execute_frame [OF insert_fails(3)] fetchall_frame [OF insert_fails(4)]
        target_call_Inl_frame [OF insert_fails(5) [unfolded executemany_def]]
      by simp_all
    from kept [OF inv(1,2,4) this] insert_fails(1) show ?thesis
      by simp
  next
    case (commit_fails err u s1 rows s2 u' s3)
    have res: "result st' = result st"
      and lg: "target_log st' = target_log st @ [ExecuteMany ?ins rows]"
      using source_execute_frame [OF commit_fails(3)] fetchall_frame [OF commit_fails(4)]
        target_call_Inr_frame [OF commit_fails(5) [unfolded executemany_def]]
        target_call_Inl_frame [OF commit_fails(6) [unfolded commit_def]]
      by simp_all
    have "untouched t st'"
      using inv(1) untouched_cong [OF res, of t] by simp
    moreover have "accounted e sp tp t prior st'"
      by (rule accounted_pending [OF inv(2,3,4) res lg])
    moreover have "list_ex is_create (target_log st')"
      using inv(4) by (simp add: lg)
    ultimately show ?thesis
      using commit_fails(1) by simp
  next
    case (next_round u s1 rows s2 u' s3 u'' s4)
    let ?s = "s4\<lparr>result := (result s4)\<lparr>rows_migrated := tot + int (length rows)\<rparr>\<rparr>"
    have res: "result s4 = result st"
      and lg: "target_log s4 = target_log st @ [ExecuteMany ?ins rows, Commit]"
      using source_execute_frame [OF next_round(2)] fetchall_frame [OF next_round(3)]
        target_call_Inr_frame [OF next_round(4) [unfolded executemany_def]]
        target_call_Inr_frame [OF next_round(5) [unfolded commit_def]]
      by simp_all
    note page = page_fetched [OF next_round(2)]
    from next_round(3) have "rows = result_set s1"
      by (simp add: fetchall_Inr_iff)
    with page have rows: "rows = take (nat B) (drop (nat off) ?R)"
      by simp
    note step = accounted_committed [OF inv(2,3,4,6,7) page(2) rows res lg inv(5) refl]
    have a: "untouched t ?s"
      using inv(1) res by (simp add: untouched_def)
    have g: "0 \<le> off + B"
      using inv(7) page(2) by simp
    show ?thesis
      by (rule "1.IH" [OF next_round(2) [symmetric] refl next_round(3) [symmetric] refl
            next_round(1) next_round(4) [symmetric] refl next_round(5) [symmetric] refl
            next_round(6) a step(1,2,3,5,4) g])
  qed
qed

section \<open>The try block\<close>

lemma accounted_prefix:
  assumes "result st = result (initial_state t)"
    and "prefix (target_log st) (recreate_calls e t sp tp)"
  shows "accounted e sp tp t prior st"
proof -
  from assms(2) consider "target_log st = []"
    | "target_log st = take 1 (recreate_calls e t sp tp)"
    | "target_log st = take 2 (recreate_calls e t sp tp)"
    | "target_log st = take 3 (recreate_calls e t sp tp)"
    | "target_log st = take 4 (recreate_calls e t sp tp)"
    | "target_log st = recreate_calls e t sp tp"
    by (auto simp: prefix_Cons recreate_calls_def)
  then show ?thesis
    by cases
      (simp_all add: accounted_def assms(1) initial_state_def recreate_calls_def
        committed_batches_def rounds_def target_table_def target_tables_def names_target_def
        target_address_def)
qed

lemma recreate_calls_facts:
  "rounds (recreate_calls e t sp tp) = ([], [])"
  "list_ex is_create (recreate_calls e t sp tp)"
  "committed_batches (recreate_calls e t sp tp) = []"
  by (simp_all add: recreate_calls_def rounds_def committed_batches_def)


lemma copy_loop_executes:
  assumes "copy_loop e t sp tp B cols cl off tot st = (r, st')"
  shows "Execute q \<in> set (target_log st') \<longleftrightarrow> Execute q \<in> set (target_log st)"
  using assms
proof (induction e t sp tp B cols cl off tot st rule: copy_loop.induct)
  case (1 e t sp tp B cols cl off tot st)
  from "1.prems" show ?case
  proof (cases rule: copy_loop_cases)
    case (execute_fails err)
    with source_execute_frame [OF execute_fails(2)] show ?thesis by simp
  next
    case (fetch_fails err u s1)
    with source_execute_frame [OF fetch_fails(2)] fetchall_frame [OF fetch_fails(3)]
    show ?thesis by simp
  next
    case (no_rows u s1)
    with source_execute_frame [OF no_rows(2)] fetchall_frame [OF no_rows(3)]
    show ?thesis by simp
  next
    case (insert_fails err u s1 rows s2)
    with source_execute_frame [OF insert_fails(3)] fetchall_frame [OF insert_fails(4)]
      target_call_Inl_frame [OF insert_fails(5) [unfolded executemany_def]]
    show ?thesis by simp
  next
    case (commit_fails err u s1 rows s2 u' s3)
    with source_execute_frame [OF commit_fails(3)] fetchall_frame [OF commit_fails(4)]
      target_call_Inr_frame [OF commit_fails(5) [unfolded executemany_def]]
      target_call_Inl_frame [OF commit_fails(6) [unfolded commit_def]]
    show ?thesis by simp
  next
    case (next_round u s1 rows s2 u' s3 u'' s4)
    have lg: "target_log s4 =
        target_log st @ [ExecuteMany (InsertInto (database tp) (schema tp) t cl (length cols)) rows,
          Commit]"
      using source_execute_frame [OF next_round(2)] fetchall_frame [OF next_round(3)]
        target_call_Inr_frame [OF next_round(4) [unfolded executemany_def]]
        target_call_Inr_frame [OF next_round(5) [unfolded commit_def]]
      by simp
    have "Execute q \<in> set (target_log st') \<longleftrightarrow>
        Execute q \<in> set (target_log
          (s4\<lparr>result := (result s4)\<lparr>rows_migrated := tot + int (length rows)\<rparr>\<rparr>))"
      by (rule "1.IH" [OF next_round(2) [symmetric] refl next_round(3) [symmetric] refl
            next_round(1) next_round(4) [symmetric] refl next_round(5) [symmetric] refl
            next_round(6)])
    then show ?thesis
      by (simp add: lg)
  qed
qed

lemma migrate_body_cases:
  assumes "migrate_body e t sp tp B (initial_state t) = (r, st)"
  obtains
    (recreate_fails) err where "r = Inl err"
      "recreate_table e t sp tp (initial_state t) = (Inl err, st)"
  | (copy_fails) err columns s1 where "r = Inl err"
      "recreate_table e t sp tp (initial_state t) = (Inr columns, s1)"
      "copy_loop e t sp tp B columns (join '', '' columns) 0 0 s1 = (Inl err, st)"
  | (succeeds) columns s1 s2 where "r = Inr ()"
      "recreate_table e t sp tp (initial_state t) = (Inr columns, s1)"
      "copy_loop e t sp tp B columns (join '', '' columns) 0 0 s1 = (Inr (), s2)"
      "st = s2\<lparr>result := (result s2)\<lparr>success := True\<rparr>\<rparr>"
proof (cases r)
  case (Inl err)
  with assms that(1,2) show thesis
    unfolding migrate_body_def
    by (auto simp: seq_Inl_iff seq_Inr_iff set_success_def)
next
  case (Inr u)
  with assms that(3) show thesis
    unfolding migrate_body_def
    by (auto simp: seq_Inr_iff set_success_def)
qed

lemma loop_from_recreated:
  assumes "copy_loop e t sp tp B cols cl 0 0 s1 = (r, st')"
    and "result s1 = result (initial_state t)"
    and "target_log s1 = recreate_calls e t sp tp"
  shows "untouched t st' \<and> accounted e sp tp t prior st' \<and>
     list_ex is_create (target_log st') \<and>
     (\<forall>u. r = Inr u \<longrightarrow> snd (rounds (target_log st')) = [] \<and>
        (0 < B \<longrightarrow> concat (committed_batches (target_log st')) = source_rows e sp t))"
proof (rule copy_loop_accounted [OF assms(1)])
  show "untouched t s1"
    by (simp add: untouched_def assms(2) initial_state_def)
  have "prefix (target_log s1) (recreate_calls e t sp tp)"
    by (simp add: assms(3))
  then show "accounted e sp tp t prior s1"
    by (rule accounted_prefix [OF assms(2)])
  show "snd (rounds (target_log s1)) = []"
    by (simp add: assms(3) recreate_calls_facts)
  show "list_ex is_create (target_log s1)"
    by (simp add: assms(3) recreate_calls_facts)
  show "0 = int (length (concat (committed_batches (target_log s1))))"
    by (simp add: assms(3) recreate_calls_facts)
  show "concat (committed_batches (target_log s1)) = take (nat 0) (source_rows e sp t)"
    by (simp add: assms(3) recreate_calls_facts)
  show "(0::int) \<le> 0"
    by simp
qed

lemma migrate_body_result:
  assumes "migrate_body e t sp tp B (initial_state t) = (r, st)"
  shows "table (result st) = t" and "error (result st) = None"
    and "time_taken (result st) = 0" and "success (result st) \<longleftrightarrow> r = Inr ()"
    and "accounted e sp tp t prior st"
proof -
  have init: "untouched t (initial_state t)"
    by (simp add: untouched_def initial_state_def)
  have "untouched t (st\<lparr>result := (result st)\<lparr>success := False\<rparr>\<rparr>) \<and>
      (success (result st) \<longleftrightarrow> r = Inr ()) \<and> accounted e sp tp t prior st"
    using assms
  proof (cases rule: migrate_body_cases)
    case (recreate_fails err)
    note f = recreate_table_Inl [OF recreate_fails(2)]
    from f have "untouched t st" by (simp add: untouched_def initial_state_def)
    moreover from f have "accounted e sp tp t prior st"
      by (intro accounted_prefix [where e = e and sp = sp and tp = tp and t = t]) simp_all
    ultimately show ?thesis
      using recreate_fails(1) by (simp add: untouched_def)
  next
    case (copy_fails err columns s1)
    from recreate_table_Inr [OF copy_fails(2)]
    have s1: "result s1 = result (initial_state t)" "target_log s1 = recreate_calls e t sp tp"
      by auto
    have "untouched t st \<and> accounted e sp tp t prior st \<and>
       list_ex is_create (target_log st) \<and>
       (\<forall>u::unit. (Inl err :: string + unit) = Inr u \<longrightarrow> snd (rounds (target_log st)) = [] \<and>
        (0 < B \<longrightarrow> concat (committed_batches (target_log st)) = source_rows e sp t))"
      by (rule loop_from_recreated [OF copy_fails(3) s1])
    then show ?thesis
      using copy_fails(1) by (simp add: untouched_def)
  next
    case (succeeds columns s1 s2)
    from recreate_table_Inr [OF succeeds(2)]
    have s1: "result s1 = result (initial_state t)" "target_log s1 = recreate_calls e t sp tp"
      by auto
    have "untouched t s2 \<and> accounted e sp tp t prior s2 \<and>
       list_ex is_create (target_log s2) \<and>
       (\<forall>u::unit. (Inr () :: string + unit) = Inr u \<longrightarrow> snd (rounds (target_log s2)) = [] \<and>
        (0 < B \<longrightarrow> concat (committed_batches (target_log s2)) = source_rows e sp t))"
      by (rule loop_from_recreated [OF succeeds(3) s1])
    then show ?thesis
      using succeeds(1,4) by (simp add: untouched_def accounted_def)
  qed
  then show "table (result st) = t" and "error (result st) = None"
    and "time_taken (result st) = 0" and "success (result st) \<longleftrightarrow> r = Inr ()"
    and "accounted e sp tp t prior st"
    by (simp_all add: untouched_def)
qed

lemma migrate_body_success:
  assumes "migrate_body e t sp tp B (initial_state t) = (Inr u, st)"
  shows "find_table e (database sp) (schema sp) t \<noteq> None \<and>
    snd (rounds (target_log st)) = [] \<and> list_ex is_create (target_log st) \<and>
    (0 < B \<longrightarrow> concat (committed_batches (target_log st)) = source_rows e sp t)"
  using assms
proof (cases rule: migrate_body_cases)
  case (succeeds columns s1 s2)
  from recreate_table_Inr [OF succeeds(2)]
  have s1: "result s1 = result (initial_state t)" "target_log s1 = recreate_calls e t sp tp"
    and ft: "find_table e (database sp) (schema sp) t \<noteq> None"
    by auto
  have "untouched t s2 \<and> accounted e sp tp t Map.empty s2 \<and>
     list_ex is_create (target_log s2) \<and>
     (\<forall>u::unit. (Inr () :: string + unit) = Inr u \<longrightarrow> snd (rounds (target_log s2)) = [] \<and>
      (0 < B \<longrightarrow> concat (committed_batches (target_log s2)) = source_rows e sp t))"
    by (rule copy_loop_accounted [OF succeeds(3)])
      (simp_all add: s1 recreate_calls_facts untouched_def initial_state_def
        accounted_prefix [where e = e and sp = sp and tp = tp and t = t and st = s1])
  with ft succeeds(4) show ?thesis
    by simp
qed simp_all

lemma migrate_body_create:
  assumes "migrate_body e t sp tp B (initial_state t) = (r, st)"
    and "Execute (CreateStatement s) \<in> set (target_log st)"
  shows "find_table e (database sp) (schema sp) t \<noteq> None \<and>
     s = translate_ddl sp tp (source_ddl e sp t)"
  using assms(1)
proof (cases rule: migrate_body_cases)
  case (recreate_fails err)
  note f = recreate_table_Inl [OF recreate_fails(2)]
  from f obtain zs where zs: "recreate_calls e t sp tp = target_log st @ zs"
    by (auto simp: prefix_def)
  from assms(2) have "list_ex is_create (target_log st)"
    by (auto simp: list_ex_iff intro!: bexI [of _ "Execute (CreateStatement s)"])
  moreover from assms(2) zs have "Execute (CreateStatement s) \<in> set (recreate_calls e t sp tp)"
    by simp
  ultimately show ?thesis
    using f by (simp add: recreate_calls_def)
next
  case (copy_fails err columns s1)
  from recreate_table_Inr [OF copy_fails(2)]
  have s1: "target_log s1 = recreate_calls e t sp tp"
    and ft: "find_table e (database sp) (schema sp) t \<noteq> None"
    by auto
  from copy_loop_executes [OF copy_fails(3)] assms(2) s1 ft show ?thesis
    by (simp add: recreate_calls_def)
next
  case (succeeds columns s1 s2)
  from recreate_table_Inr [OF succeeds(2)]
  have s1: "target_log s1 = recreate_calls e t sp tp"
    and ft: "find_table e (database sp) (schema sp) t \<noteq> None"
    by auto
  from copy_loop_executes [OF succeeds(3)] assms(2) s1 ft succeeds(4) show ?thesis
    by (simp add: recreate_calls_def)
qed

section \<open>The result of one table\<close>

lemma page_requests_append: "page_requests (xs @ ys) = page_requests xs @ page_requests ys"
  by (induction xs rule: page_requests.induct) simp_all

lemma insert_batches_append: "insert_batches (xs @ ys) = insert_batches xs @ insert_batches ys"
  by (induction xs rule: insert_batches.induct) simp_all

lemma closes_ignored:
  assumes "set xs \<subseteq> {CloseCursor, CloseConnection}"
  shows "rounds (lg @ xs) = rounds lg"
    and "target_tables e prior (lg @ xs) = target_tables e prior lg"
    and "list_ex is_create (lg @ xs) = list_ex is_create lg"
    and "list_ex is_drop (lg @ xs) = list_ex is_drop lg"
    and "page_requests (lg @ xs) = page_requests lg"
    and "insert_batches (lg @ xs) = insert_batches lg"
    and "Execute q \<in> set (lg @ xs) \<longleftrightarrow> Execute q \<in> set lg"
  using assms
proof (induction xs rule: rev_induct)
  case Nil
  {
    case 1 show ?case by simp
  next
    case 2 show ?case by simp
  next
    case 3 show ?case by simp
  next
    case 4 show ?case by simp
  next
    case 5 show ?case by simp
  next
    case 6 show ?case by simp
  next
    case 7 show ?case by simp
  }
next
  case (snoc x xs)
  {
    case 1
    with snoc(1) have "rounds (lg @ xs) = rounds lg" and "x = CloseCursor \<or> x = CloseConnection"
      by simp_all
    then show ?case
      using rounds_snoc [of "lg @ xs" x] by (cases "rounds lg") auto
  next
    case 2
    with snoc(2) have "target_tables e prior (lg @ xs) = target_tables e prior lg"
      and "x = CloseCursor \<or> x = CloseConnection"
      by simp_all
    then show ?case
      using target_tables_snoc [of e prior "lg @ xs" x] by auto
  next
    case 3
    with snoc(3) show ?case by auto
  next
    case 4
    with snoc(4) show ?case by auto
  next
    case 5
    with snoc(5) show ?case by (auto simp: page_requests_append)
  next
    case 6
    with snoc(6) show ?case by (auto simp: insert_batches_append)
  next
    case 7
    with snoc(7) show ?case by auto
  }
qed

lemma close_side_facts:
  "result (close_side sd st) = result st" "calls (close_side sd st) = calls st"
  "\<exists>xs. set xs \<subseteq> {CloseCursor, CloseConnection} \<and>
     target_log (close_side sd st) = target_log st @ xs"
  "\<exists>ys. set ys \<subseteq> {CloseCursor, CloseConnection} \<and>
     source_log (close_side sd st) = source_log st @ ys"
  by (cases sd; simp add: close_side_def Let_def record_call_def)+

lemma migrate_table_unfold:
  obtains r s xs ys where "migrate_body e t sp tp B (initial_state t) = (r, s)"
    and "fst (migrate_table e t sp tp B) =
      (result s)\<lparr>error := (case r of Inl err \<Rightarrow> Some err | Inr u \<Rightarrow> error (result s)),
                  time_taken := elapsed e t (calls s)\<rparr>"
    and "calls (snd (migrate_table e t sp tp B)) = calls s"
    and "set xs \<subseteq> {CloseCursor, CloseConnection}"
    and "target_log (snd (migrate_table e t sp tp B)) = target_log s @ xs"
    and "set ys \<subseteq> {CloseCursor, CloseConnection}"
    and "source_log (snd (migrate_table e t sp tp B)) = source_log s @ ys"
proof -
  obtain r s where body: "migrate_body e t sp tp B (initial_state t) = (r, s)"
    by (cases "migrate_body e t sp tp B (initial_state t)")
  define s2 where "s2 = (case r of
      Inl err \<Rightarrow> s\<lparr>result := (result s)\<lparr>error := Some err\<rparr>\<rparr> | Inr u \<Rightarrow> s)"
  define s3 where "s3 = close_side Target (close_side Source s2)"
  have mt: "migrate_table e t sp tp B =
      ((result s3)\<lparr>time_taken := elapsed e t (calls s3)\<rparr>,
       s3\<lparr>result := (result s3)\<lparr>time_taken := elapsed e t (calls s3)\<rparr>\<rparr>)"
    by (simp add: migrate_table_def body s2_def s3_def Let_def)
  have s2: "calls s2 = calls s" "target_log s2 = target_log s" "source_log s2 = source_log s"
    "result s2 = (result s)\<lparr>error := (case r of Inl err \<Rightarrow> Some err
       | Inr u \<Rightarrow> error (result s))\<rparr>"
    by (cases r; simp add: s2_def)+
  obtain xs1 ys1 where 1: "set xs1 \<subseteq> {CloseCursor, CloseConnection}"
    "target_log (close_side Source s2) = target_log s2 @ xs1"
    "set ys1 \<subseteq> {CloseCursor, CloseConnection}"
    "source_log (close_side Source s2) = source_log s2 @ ys1"
    using close_side_facts(3,4) [of Source s2] by blast
  obtain xs2 ys2 where 2: "set xs2 \<subseteq> {CloseCursor, CloseConnection}"
    "target_log s3 = target_log (close_side Source s2) @ xs2"
    "set ys2 \<subseteq> {CloseCursor, CloseConnection}"
    "source_log s3 = source_log (close_side Source s2) @ ys2"
    unfolding s3_def using close_side_facts(3,4) [of Target "close_side Source s2"] by blast
  have 3: "calls s3 = calls s" "result s3 = result s2"
    by (simp_all add: s3_def close_side_facts s2)
  show thesis
  proof (rule that [OF body, of "xs1 @ xs2" "ys1 @ ys2"])
    show "fst (migrate_table e t sp tp B) =
      (result s)\<lparr>error := (case r of Inl err \<Rightarrow> Some err | Inr u \<Rightarrow> error (result s)),
                  time_taken := elapsed e t (calls s)\<rparr>"
      by (simp add: mt 3 s2)
    show "calls (snd (migrate_table e t sp tp B)) = calls s"
      by (simp add: mt 3)
    show "set (xs1 @ xs2) \<subseteq> {CloseCursor, CloseConnection}"
      using 1(1) 2(1) by simp
    show "target_log (snd (migrate_table e t sp tp B)) = target_log s @ xs1 @ xs2"
      by (simp add: mt 1 2 s2)
    show "set (ys1 @ ys2) \<subseteq> {CloseCursor, CloseConnection}"
      using 1(3) 2(3) by simp
    show "source_log (snd (migrate_table e t sp tp B)) = source_log s @ ys1 @ ys2"
      by (simp add: mt 1 2 s2)
  qed
qed

lemma migrate_table_accounted:
  obtains r st where "migrate_body e t sp tp B (initial_state t) = (r, st)"
    and "fst (migrate_table e t sp tp B) =
      (result st)\<lparr>error := (case r of Inl err \<Rightarrow> Some err | Inr u \<Rightarrow> error (result st)),
                   time_taken := elapsed e t (calls st)\<rparr>"
    and "calls (snd (migrate_table e t sp tp B)) = calls st"
    and "rounds (target_log (snd (migrate_table e t sp tp B))) = rounds (target_log st)"
    and "target_tables e prior (target_log (snd (migrate_table e t sp tp B))) =
      target_tables e prior (target_log st)"
    and "list_ex is_create (target_log (snd (migrate_table e t sp tp B))) =
      list_ex is_create (target_log st)"
    and "list_ex is_drop (target_log (snd (migrate_table e t sp tp B))) =
      list_ex is_drop (target_log st)"
    and "accounted e sp tp t prior st"
proof -
  obtain r st xs ys where body: "migrate_body e t sp tp B (initial_state t) = (r, st)"
    and res: "fst (migrate_table e t sp tp B) =
      (result st)\<lparr>error := (case r of Inl err \<Rightarrow> Some err | Inr u \<Rightarrow> error (result st)),
                   time_taken := elapsed e t (calls st)\<rparr>"
    and cl: "calls (snd (migrate_table e t sp tp B)) = calls st"
    and xs: "set xs \<subseteq> {CloseCursor, CloseConnection}"
    and lg: "target_log (snd (migrate_table e t sp tp B)) = target_log st @ xs"
    by (rule migrate_table_unfold)
  show thesis
    by (rule that [OF body res cl])
      (simp_all only: lg closes_ignored [OF xs] migrate_body_result(5) [OF body])
qed

section \<open>Counting the rounds\<close>

lemma rounds_step:
  fixes m b :: nat
  assumes "0 < m" and "0 < b"
  shows "(m + b - 1) div b = Suc ((m - b + b - 1) div b)"
proof (cases "b \<le> m")
  case True
  then have 1: "m - b + b - 1 = m - 1" and 2: "m + b - 1 = (m - 1) + b"
    using assms by simp_all
  show ?thesis
    unfolding 1 2 using assms(2) div_add_self2 [of b "m - 1"] by simp
next
  case False
  then have 1: "m - b + b - 1 = b - 1" and 2: "m + b - 1 = (m - 1) + b" and 3: "m - 1 < b"
    using assms by simp_all
  show ?thesis
    unfolding 1 2 using assms(2) 3 div_add_self2 [of b "m - 1"] by simp
qed

lemma ceil_div:
  fixes a b :: nat
  assumes "0 < b"
  shows "(a + b - 1) div b = a div b + (if a mod b = 0 then 0 else 1)"
proof -
  define r where "r = a mod b"
  define q where "q = a div b"
  have a: "a = r + q * b"
    by (simp add: r_def q_def)
  have rb: "r < b"
    using assms by (simp add: r_def)
  show ?thesis
  proof (cases "r = 0")
    case True
    have "r + q * b + b - 1 = (b - 1) + q * b"
      using assms True by simp
    then have "(a + b - 1) div b = (b - 1) div b + q"
      unfolding a using assms by (simp only: div_mult_self1)
    with True assms show ?thesis
      by (simp add: q_def r_def)
  next
    case False
    have "r + q * b + b - 1 = (r - 1) + (Suc q) * b"
      using False by simp
    then have "(a + b - 1) div b = (r - 1) div b + Suc q"
      unfolding a using assms by (simp only: div_mult_self1)
    moreover have "(r - 1) div b = 0"
      using rb by simp
    ultimately show ?thesis
      using False by (simp add: q_def r_def)
  qed
qed


lemma batch_sizes:
  fixes b :: nat
  assumes "0 < b"
  shows "map length (map (\<lambda>i. take b (drop (i * b) R)) [0..<(length R + b - 1) div b]) =
     replicate (length R div b) b @ (if length R mod b = 0 then [] else [length R mod b])"
proof -
  define q where "q = length R div b"
  define r where "r = length R mod b"
  have len: "length R = q * b + r"
    by (simp add: q_def r_def)
  have n: "(length R + b - 1) div b = q + (if r = 0 then 0 else 1)"
    using ceil_div [OF assms, of "length R"] by (simp add: q_def r_def)
  have full: "length (take b (drop (i * b) R)) = b" if "i < q" for i
  proof -
    from that have "Suc i * b \<le> q * b"
      by (simp only: mult_le_mono1 Suc_leI)
    with len have "b \<le> length R - i * b"
      by simp
    then show ?thesis
      by simp
  qed
  have first: "map length (map (\<lambda>i. take b (drop (i * b) R)) [0..<q]) = replicate q b"
  proof -
    have "map length (map (\<lambda>i. take b (drop (i * b) R)) [0..<q]) = map (\<lambda>i. b) [0..<q]"
      using full by simp
    then show ?thesis
      by (simp add: map_replicate_const)
  qed
  have "length R - q * b = r"
    using len by simp
  moreover have "r < b"
    using assms by (simp add: r_def)
  ultimately have rest: "length (take b (drop (q * b) R)) = r"
    by simp
  show ?thesis
  proof (cases "r = 0")
    case True
    with n first show ?thesis
      by (simp add: q_def r_def)
  next
    case False
    with n have "[0..<(length R + b - 1) div b] = [0..<q] @ [q]"
      by simp
    with first rest False show ?thesis
      by (simp add: q_def r_def)
  qed
qed

lemma last_page_empty:
  fixes b :: nat
  assumes "0 < b"
  shows "take b (drop ((length R + b - 1) div b * b) R) = []"
proof -
  have "length R \<le> (length R + b - 1) div b * b"
  proof (cases "length R mod b = 0")
    case True
    with ceil_div [OF assms, of "length R"]
    have "(length R + b - 1) div b * b = length R div b * b"
      by simp
    moreover have "length R = length R div b * b + length R mod b"
      by simp
    ultimately show ?thesis
      using True by linarith
  next
    case False
    with ceil_div [OF assms, of "length R"]
    have "(length R + b - 1) div b * b = length R div b * b + b"
      by simp
    moreover have "length R = length R div b * b + length R mod b"
      by simp
    moreover have "length R mod b < b"
      using assms by simp
    ultimately show ?thesis
      by linarith
  qed
  then show ?thesis
    by simp
qed

lemma source_frame_target_call:
  "invoke e t Target c (Inr ()) st = (r, st') \<Longrightarrow> source_log st' = source_log st"
  by (cases r) (auto simp: invoke_Inl_iff invoke_Inr_iff record_call_def)

lemma upt_shift: "map f [0..<Suc n] = f 0 # map (\<lambda>i. f (Suc i)) [0..<n]"
  by (simp only: upt_conv_Cons [of 0 "Suc n"] map_Suc_upt [symmetric]) (simp add: comp_def)

lemma copy_loop_rounds:
  assumes "copy_loop e t sp tp B cols cl off tot st = (Inr u, st')" and "0 < B"
  shows "page_requests (source_log st') = page_requests (source_log st) @
       map (\<lambda>i. (B, off + int i * B))
         [0..<Suc ((length (source_rows e sp t) - nat off + nat B - 1) div nat B)] \<and>
     insert_batches (target_log st') = insert_batches (target_log st) @
       map (\<lambda>i. take (nat B) (drop (nat off + i * nat B) (source_rows e sp t)))
         [0..<(length (source_rows e sp t) - nat off + nat B - 1) div nat B]"
  using assms
proof (induction e t sp tp B cols cl off tot st rule: copy_loop.induct)
  case (1 e t sp tp B cols cl off tot st)
  let ?R = "source_rows e sp t"
  let ?q = "SelectPage cl (database sp) (schema sp) t B off"
  let ?ins = "InsertInto (database tp) (schema tp) t cl (length cols)"
  have b: "0 < nat B"
    using "1.prems"(2) by simp
  from "1.prems"(1) show ?case
  proof (cases rule: copy_loop_cases)
    case (no_rows u' s1)
    note page = page_fetched [OF no_rows(2)]
    from no_rows(3) have "result_set s1 = []"
      by (simp add: fetchall_Inr_iff)
    with page(1) b have "length ?R \<le> nat off"
      by (auto simp: take_eq_Nil)
    then have n: "(length ?R - nat off + nat B - 1) div nat B = 0"
      using b by simp
    have sl: "source_log st' = source_log st @ [Execute ?q, FetchAll]"
      using no_rows(2,3) by (auto simp: source_execute_Inr_iff fetchall_Inr_iff)
    have tl: "target_log st' = target_log st"
      using source_execute_frame [OF no_rows(2)] fetchall_frame [OF no_rows(3)] by simp
    show ?thesis
      using n by (simp add: sl tl page_requests_append)
  next
    case (next_round u1 s1 rows s2 u2 s3 u3 s4)
    let ?s = "s4\<lparr>result := (result s4)\<lparr>rows_migrated := tot + int (length rows)\<rparr>\<rparr>"
    note page = page_fetched [OF next_round(2)]
    from next_round(3) have "rows = result_set s1"
      by (simp add: fetchall_Inr_iff)
    with page have rows: "rows = take (nat B) (drop (nat off) ?R)"
      by simp
    with next_round(1) have m: "0 < length ?R - nat off"
      by (auto simp: take_eq_Nil)
    have off': "nat (off + B) = nat off + nat B"
      using page(2,3) by (simp add: nat_add_distrib)
    have n: "(length ?R - nat off + nat B - 1) div nat B =
        Suc ((length ?R - nat (off + B) + nat B - 1) div nat B)"
      using rounds_step [OF m b] by (simp add: off')
    have sl: "source_log ?s = source_log st @ [Execute ?q, FetchAll]"
      using next_round(2,3) source_frame_target_call [OF next_round(4) [unfolded executemany_def]]
        source_frame_target_call [OF next_round(5) [unfolded commit_def]]
      by (auto simp: source_execute_Inr_iff fetchall_Inr_iff)
    have tl: "target_log ?s = target_log st @ [ExecuteMany ?ins rows, Commit]"
      using source_execute_frame [OF next_round(2)] fetchall_frame [OF next_round(3)]
        target_call_Inr_frame [OF next_round(4) [unfolded executemany_def]]
        target_call_Inr_frame [OF next_round(5) [unfolded commit_def]]
      by simp
    let ?n' = "(length ?R - nat (off + B) + nat B - 1) div nat B"
    have ih: "page_requests (source_log st') = page_requests (source_log ?s) @
          map (\<lambda>i. (B, off + B + int i * B)) [0..<Suc ?n'] \<and>
        insert_batches (target_log st') = insert_batches (target_log ?s) @
          map (\<lambda>i. take (nat B) (drop (nat (off + B) + i * nat B) ?R)) [0..<?n']"
      by (rule "1.IH" [OF next_round(2) [symmetric] refl next_round(3) [symmetric] refl
            next_round(1) next_round(4) [symmetric] refl next_round(5) [symmetric] refl
            next_round(6) "1.prems"(2)])
    have p: "map (\<lambda>i. (B, off + int i * B)) [0..<Suc (Suc ?n')] =
        (B, off) # map (\<lambda>i. (B, off + B + int i * B)) [0..<Suc ?n']"
      by (subst upt_shift) (simp add: algebra_simps)
    have i: "map (\<lambda>i. take (nat B) (drop (nat off + i * nat B) ?R)) [0..<Suc ?n'] =
        rows # map (\<lambda>i. take (nat B) (drop (nat (off + B) + i * nat B) ?R)) [0..<?n']"
      by (subst upt_shift) (simp add: rows off' add.assoc)
    from ih show ?thesis
      by (simp only: n p i sl tl page_requests_append insert_batches_append
          page_requests.simps insert_batches.simps append_Cons append_Nil append_assoc)
  qed simp_all
qed

section \<open>The thread pool\<close>

lemma await_value:
  assumes "await task i finished sched = Some (v, fin', sched')"
    and "\<forall>j w. finished j = Some w \<longrightarrow> w = task j"
  shows "v = task i \<and> (\<forall>j w. fin' j = Some w \<longrightarrow> w = task j)"
  using assms
proof (induction sched arbitrary: finished)
  case Nil
  then show ?case
    by (auto split: option.splits)
next
  case (Cons j js)
  show ?case
  proof (cases "finished i")
    case None
    with Cons.prems(1) have "await task i (finished(j \<mapsto> task j)) js = Some (v, fin', sched')"
      by simp
    moreover have "\<forall>k w. (finished(j \<mapsto> task j)) k = Some w \<longrightarrow> w = task k"
      using Cons.prems(2) by simp
    ultimately show ?thesis
      by (rule Cons.IH)
  next
    case (Some w)
    with Cons.prems show ?thesis
      by auto
  qed
qed

lemma await_fair:
  assumes "finished i \<noteq> None \<or> i \<in> set sched"
  shows "\<exists>v fin' sched'. await task i finished sched = Some (v, fin', sched') \<and>
     (\<forall>j. finished j \<noteq> None \<or> j \<in> set sched \<longrightarrow> fin' j \<noteq> None \<or> j \<in> set sched')"
  using assms
proof (induction sched arbitrary: finished)
  case Nil
  then show ?case
    by auto
next
  case (Cons j js)
  show ?case
  proof (cases "finished i")
    case None
    with Cons.prems have "(finished(j \<mapsto> task j)) i \<noteq> None \<or> i \<in> set js"
      by auto
    from Cons.IH [of "finished(j \<mapsto> task j)", OF this] obtain v fin' sched' where
      a: "await task i (finished(j \<mapsto> task j)) js = Some (v, fin', sched')"
      and b: "\<forall>k. (finished(j \<mapsto> task j)) k \<noteq> None \<or> k \<in> set js \<longrightarrow>
          fin' k \<noteq> None \<or> k \<in> set sched'"
      by blast
    have "\<forall>k. finished k \<noteq> None \<or> k \<in> set (j # js) \<longrightarrow> fin' k \<noteq> None \<or> k \<in> set sched'"
    proof (intro allI impI)
      fix k assume "finished k \<noteq> None \<or> k \<in> set (j # js)"
      then have "(finished(j \<mapsto> task j)) k \<noteq> None \<or> k \<in> set js"
        by auto
      with b show "fin' k \<noteq> None \<or> k \<in> set sched'"
        by blast
    qed
    with a None show ?thesis
      by simp
  next
    case (Some w)
    then show ?thesis
      by simp
  qed
qed

lemma collect_returned:
  assumes "collect task futures finished sched results = Returned rs"
    and "\<forall>j w. finished j = Some w \<longrightarrow> w = task j"
    and "\<forall>i. task i = Inr (g i)"
  shows "rs = results @ map g futures"
  using assms(1,2)
proof (induction futures arbitrary: finished sched results)
  case Nil
  then show ?case
    by simp
next
  case (Cons i futures)
  from Cons.prems(1) obtain v fin' sched' where
    a: "await task i finished sched = Some (v, fin', sched')"
    by (auto split: option.splits)
  from await_value [OF a Cons.prems(2)] assms(3)
  have v: "v = Inr (g i)" and cons: "\<forall>j w. fin' j = Some w \<longrightarrow> w = task j"
    by simp_all
  from Cons.prems(1) a v
  have "collect task futures fin' sched' (results @ [g i]) = Returned rs"
    by simp
  from Cons.IH [OF this cons] show ?case
    by simp
qed

lemma collect_fair:
  assumes "\<forall>i\<in>set futures. finished i \<noteq> None \<or> i \<in> set sched"
    and "\<forall>j w. finished j = Some w \<longrightarrow> w = task j"
    and "\<forall>i. task i = Inr (g i)"
  shows "collect task futures finished sched results = Returned (results @ map g futures)"
  using assms(1,2)
proof (induction futures arbitrary: finished sched results)
  case Nil
  then show ?case
    by simp
next
  case (Cons i futures)
  from Cons.prems(1) have "finished i \<noteq> None \<or> i \<in> set sched"
    by simp
  from await_fair [where finished = finished and i = i and sched = sched and task = task,
      OF this] obtain v fin' sched' where
    a: "await task i finished sched = Some (v, fin', sched')"
    and b: "\<forall>j. finished j \<noteq> None \<or> j \<in> set sched \<longrightarrow> fin' j \<noteq> None \<or> j \<in> set sched'"
    by blast
  from await_value [OF a Cons.prems(2)] assms(3)
  have v: "v = Inr (g i)" and cons: "\<forall>j w. fin' j = Some w \<longrightarrow> w = task j"
    by simp_all
  from Cons.prems(1) b have "\<forall>k\<in>set futures. fin' k \<noteq> None \<or> k \<in> set sched'"
    by (metis list.set_intros(2))
  from Cons.IH [OF this cons, of "results @ [g i]"] a v show ?case
    by simp
qed

lemma migrate_all_returned:
  assumes "migrate_all_tables e sp tp B mw sched = Returned rs"
  shows "\<exists>tables. get_tables e sp = Inr tables \<and> 0 < mw \<and>
     rs = map (\<lambda>t. fst (migrate_table e t sp tp B)) tables"
proof -
  from assms obtain tables where t: "get_tables e sp = Inr tables" and mw: "0 < mw"
    and c: "collect (\<lambda>i. Inr (fst (migrate_table e (tables ! i) sp tp B)))
        [0..<length tables] Map.empty (filter (\<lambda>j. j < length tables) sched) [] = Returned rs"
    by (auto simp: migrate_all_tables_def split: sum.splits if_splits)
  have "rs = [] @ map (\<lambda>i. fst (migrate_table e (tables ! i) sp tp B)) [0..<length tables]"
    by (rule collect_returned [OF c]) simp_all
  also have "\<dots> = map (\<lambda>t. fst (migrate_table e t sp tp B)) (map ((!) tables) [0..<length tables])"
    by simp
  finally show ?thesis
    using t mw by (simp add: map_nth)
qed

lemma migrate_all_fair:
  assumes "get_tables e sp = Inr tables" and "0 < mw"
    and "{0..<length tables} \<subseteq> set sched"
  shows "migrate_all_tables e sp tp B mw sched =
     Returned (map (\<lambda>t. fst (migrate_table e t sp tp B)) tables)"
proof -
  have "collect (\<lambda>i. Inr (fst (migrate_table e (tables ! i) sp tp B)))
        [0..<length tables] Map.empty (filter (\<lambda>j. j < length tables) sched) [] =
      Returned ([] @ map (\<lambda>i. fst (migrate_table e (tables ! i) sp tp B)) [0..<length tables])"
    by (rule collect_fair) (use assms(3) in auto)
  also have "map (\<lambda>i. fst (migrate_table e (tables ! i) sp tp B)) [0..<length tables] =
      map (\<lambda>t. fst (migrate_table e t sp tp B)) (map ((!) tables) [0..<length tables])"
    by simp
  finally show ?thesis
    using assms(1,2) by (simp add: migrate_all_tables_def map_nth)
qed

lemma migrate_table_name: "table (fst (migrate_table e t sp tp B)) = t"
proof -
  obtain r st where body: "migrate_body e t sp tp B (initial_state t) = (r, st)"
    and res: "fst (migrate_table e t sp tp B) =
      (result st)\<lparr>error := (case r of Inl err \<Rightarrow> Some err | Inr u \<Rightarrow> error (result st)),
                   time_taken := elapsed e t (calls st)\<rparr>"
    by (rule migrate_table_accounted [of e t sp tp B Map.empty])
  from migrate_body_result(1) [OF body] show ?thesis
    by (simp add: res)
qed

lemma migrate_all_names:
  "map table (map (\<lambda>t. fst (migrate_table e t sp tp B)) tables) = tables"
  by (induction tables) (simp_all add: migrate_table_name)

section \<open>Tasks do not depend on each other\<close>

lemma same_for_steps:
  assumes "same_for e e' t"
  shows "invoke e' t = invoke e t" and "source_answer e' = source_answer e"
    and "source_execute e' t = source_execute e t" and "fetchone e' t = fetchone e t"
    and "fetchall e' t = fetchall e t" and "target_execute e' t = target_execute e t"
    and "executemany e' t = executemany e t" and "commit e' t = commit e t"
proof -
  from assms have f: "faults e' t = faults e t" and s: "source_tables e' = source_tables e"
    by (simp_all add: same_for_def)
  show i: "invoke e' t = invoke e t"
    by (intro ext) (simp add: invoke_def f)
  have ft: "find_table e' = find_table e"
    by (intro ext) (simp add: find_table_def s)
  show a: "source_answer e' = source_answer e"
  proof
    fix q show "source_answer e' q = source_answer e q"
      by (cases q) (simp_all add: ft s)
  qed
  show "source_execute e' t = source_execute e t"
    by (intro ext) (simp add: source_execute_def i a)
  show "fetchone e' t = fetchone e t"
    by (intro ext) (simp add: fetchone_def i)
  show "fetchall e' t = fetchall e t"
    by (intro ext) (simp add: fetchall_def i)
  show "target_execute e' t = target_execute e t"
    by (intro ext) (simp add: target_execute_def i)
  show "executemany e' t = executemany e t"
    by (intro ext) (simp add: executemany_def i)
  show "commit e' t = commit e t"
    by (intro ext) (simp add: commit_def i)
qed

lemma copy_loop_same:
  assumes "same_for e e' t"
  shows "copy_loop e' t sp tp B cols cl off tot st = copy_loop e t sp tp B cols cl off tot st"
  using assms
proof (induction e t sp tp B cols cl off tot st rule: copy_loop.induct)
  case (1 e t sp tp B cols cl off tot st)
  note p = same_for_steps(3,5,7,8) [OF "1.prems"]
  obtain r st' where run: "copy_loop e t sp tp B cols cl off tot st = (r, st')"
    by (cases "copy_loop e t sp tp B cols cl off tot st")
  from run have "copy_loop e' t sp tp B cols cl off tot st = (r, st')"
  proof (cases rule: copy_loop_cases)
    case (execute_fails err)
    then show ?thesis
      by (subst copy_loop.simps) (simp add: p)
  next
    case (fetch_fails err u s1)
    then show ?thesis
      by (subst copy_loop.simps) (simp add: p)
  next
    case (no_rows u s1)
    then show ?thesis
      by (subst copy_loop.simps) (simp add: p)
  next
    case (insert_fails err u s1 rows s2)
    then show ?thesis
      by (subst copy_loop.simps) (simp add: p)
  next
    case (commit_fails err u s1 rows s2 u' s3)
    then show ?thesis
      by (subst copy_loop.simps) (simp add: p)
  next
    case (next_round u s1 rows s2 u' s3 u'' s4)
    let ?s = "s4\<lparr>result := (result s4)\<lparr>rows_migrated := tot + int (length rows)\<rparr>\<rparr>"
    have "copy_loop e' t sp tp B cols cl off tot st =
        copy_loop e' t sp tp B cols cl (off + B) (tot + int (length rows)) ?s"
      using next_round(1-5) by (subst copy_loop.simps) (simp add: p)
    also have "\<dots> = copy_loop e t sp tp B cols cl (off + B) (tot + int (length rows)) ?s"
      by (rule "1.IH" [OF next_round(2) [symmetric] refl next_round(3) [symmetric] refl
            next_round(1) next_round(4) [symmetric] refl next_round(5) [symmetric] refl
            "1.prems"])
    finally show ?thesis
      by (simp only: next_round(6))
  qed
  with run show ?case
    by simp
qed

lemma migrate_table_same:
  assumes "same_for e e' t"
  shows "migrate_table e' t sp tp B = migrate_table e t sp tp B"
proof -
  note p = same_for_steps [OF assms]
  have r: "recreate_table e' t sp tp = recreate_table e t sp tp"
    by (simp add: recreate_table_def p)
  have l: "copy_loop e' t sp tp B = copy_loop e t sp tp B"
    by (intro ext) (rule copy_loop_same [OF assms])
  have b: "migrate_body e' t sp tp B = migrate_body e t sp tp B"
    by (simp add: migrate_body_def r l)
  from assms have "elapsed e' t = elapsed e t"
    by (simp add: same_for_def)
  then show ?thesis
    by (simp add: migrate_table_def b)
qed

section \<open>The errors of a task\<close>

lemma recreate_table_error:
  assumes "recreate_table e t sp tp (initial_state t) = (Inl err, st1)"
    and "find_table e (database sp) (schema sp) t = Some x"
  shows "\<exists>n. faults e t n = Some err"
  using assms unfolding recreate_table_def
  by (simp add: exec_Inr exec_Inl source_answer_GetDDL_Inr source_answer_columns_Inr
      initial_state_def subscript0_def
      del: source_answer.simps cong: conj_cong)
    (auto simp: first_cells_singletons split: option.splits)

lemma copy_loop_error:
  assumes "copy_loop e t sp tp B cols cl off tot st = (Inl err, st')"
    and "find_table e (database sp) (schema sp) t = Some x" and "0 \<le> B" and "0 \<le> off"
  shows "\<exists>n. faults e t n = Some err"
  using assms
proof (induction e t sp tp B cols cl off tot st rule: copy_loop.induct)
  case (1 e t sp tp B cols cl off tot st)
  from "1.prems"(1) show ?case
  proof (cases rule: copy_loop_cases)
    case (execute_fails err')
    with "1.prems"(2,3,4) show ?thesis
      by (auto simp: source_execute_Inl_iff)
  next
    case (fetch_fails err' u s1)
    then show ?thesis
      by (auto simp: fetchall_Inl_iff)
  next
    case (no_rows u s1)
    then show ?thesis
      by simp
  next
    case (insert_fails err' u s1 rows s2)
    then show ?thesis
      by (auto simp: executemany_def invoke_Inl_iff)
  next
    case (commit_fails err' u s1 rows s2 u' s3)
    then show ?thesis
      by (auto simp: commit_def invoke_Inl_iff)
  next
    case (next_round u s1 rows s2 u' s3 u'' s4)
    have "0 \<le> off + B"
      using "1.prems"(3,4) by simp
    then show ?thesis
      by (rule "1.IH" [OF next_round(2) [symmetric] refl next_round(3) [symmetric] refl
            next_round(1) next_round(4) [symmetric] refl next_round(5) [symmetric] refl
            next_round(6) "1.prems"(2,3)])
  qed
qed

lemma migrate_body_error:
  assumes "migrate_body e t sp tp B (initial_state t) = (Inl err, st)"
    and "find_table e (database sp) (schema sp) t = Some x" and "0 \<le> B"
  shows "\<exists>n. faults e t n = Some err"
  using assms(1)
proof (cases rule: migrate_body_cases)
  case (recreate_fails err')
  with recreate_table_error [OF _ assms(2)] show ?thesis
    by auto
next
  case (copy_fails err' columns s1)
  with copy_loop_error [OF _ assms(2,3), of tp columns "join '', '' columns" 0 0 s1] show ?thesis
    by auto
qed simp_all

lemma is_create_iff: "list_ex is_create lg \<longleftrightarrow> (\<exists>s. Execute (CreateStatement s) \<in> set lg)"
proof
  assume "list_ex is_create lg"
  then obtain c where c: "c \<in> set lg" "is_create c"
    by (auto simp: list_ex_iff)
  then show "\<exists>s. Execute (CreateStatement s) \<in> set lg"
    by (cases c rule: is_create.cases) auto
next
  assume "\<exists>s. Execute (CreateStatement s) \<in> set lg"
  then show "list_ex is_create lg"
    by (auto simp: list_ex_iff intro!: bexI [of _ "Execute (CreateStatement s)" for s])
qed

section \<open>The claims\<close>

text \<open>
  Claim C7. The table-creation statement that \<open>migrate_table\<close> sends to the target
  is the definition fetched from the source with the occurrences of the source qualifier
  \<open>database.schema\<close>, taken from the left and without overlap, replaced by the target
  qualifier, and every other character kept.
\<close>

theorem translation_is_replacement:
  assumes "Execute (CreateStatement s) \<in> set (target_log (snd (migrate_table e t sp tp B)))"
  shows "\<exists>x. find_table e (database sp) (schema sp) t = Some x \<and>
     s = translate_ddl sp tp (t_ddl x) \<and>
     replaced_all (qualifier sp) (qualifier tp) (t_ddl x) s"
proof -
  obtain r st xs ys where body: "migrate_body e t sp tp B (initial_state t) = (r, st)"
    and xs: "set xs \<subseteq> {CloseCursor, CloseConnection}"
    and lg: "target_log (snd (migrate_table e t sp tp B)) = target_log st @ xs"
    by (rule migrate_table_unfold)
  from assms have "Execute (CreateStatement s) \<in> set (target_log st)"
    by (simp only: lg closes_ignored(7) [OF xs])
  from migrate_body_create [OF body this] obtain x
    where x: "find_table e (database sp) (schema sp) t = Some x"
      and s: "s = translate_ddl sp tp (source_ddl e sp t)"
    by auto
  from x have ddl: "source_ddl e sp t = t_ddl x"
    by (simp add: source_ddl_def)
  have "replaced_all (qualifier sp) (qualifier tp) (t_ddl x)
      (replace_scan (qualifier sp) (qualifier tp) (t_ddl x))"
    by (rule replace_scan_replaced_all [OF qualifier_nonempty])
  then have "replaced_all (qualifier sp) (qualifier tp) (t_ddl x) s"
    by (simp add: s ddl translate_ddl_def str_replace_def qualifier_nonempty)
  with x s ddl show ?thesis
    by simp
qed

text \<open>The statement sent for \<open>orders\<close> in the example.\<close>

theorem translation_is_replacement_witness:
  "Execute (CreateStatement ''create table TDB.T.orders (id int)'')
     \<in> set (target_log (snd (migrate_table demo_env ''orders'' demo_source demo_target 2))) \<and>
   (\<exists>x. find_table demo_env (database demo_source) (schema demo_source) ''orders'' = Some x \<and>
     ''create table TDB.T.orders (id int)'' = translate_ddl demo_source demo_target (t_ddl x) \<and>
     replaced_all (qualifier demo_source) (qualifier demo_target) (t_ddl x)
       ''create table TDB.T.orders (id int)'')"
proof -
  have h: "Execute (CreateStatement ''create table TDB.T.orders (id int)'')
     \<in> set (target_log (snd (migrate_table demo_env ''orders'' demo_source demo_target 2)))"
    by code_simp
  from h translation_is_replacement [OF h] show ?thesis
    by (rule conjI)
qed

text \<open>
  Claim C10. In the result \<open>migrate_table\<close> returns, \<open>success\<close> is true exactly
  when \<open>error\<close> is \<open>None\<close>. On every path \<open>table\<close> is the table asked for,
  \<open>time_taken\<close> is the time read in the \<open>finally\<close> block, and \<open>rows_migrated\<close>
  is the number of rows in the batches that were committed.
\<close>

theorem result_invariant:
  "(success (fst (migrate_table e t sp tp B)) \<longleftrightarrow>
      error (fst (migrate_table e t sp tp B)) = None) \<and>
   table (fst (migrate_table e t sp tp B)) = t \<and>
   time_taken (fst (migrate_table e t sp tp B)) =
     elapsed e t (calls (snd (migrate_table e t sp tp B))) \<and>
   rows_migrated (fst (migrate_table e t sp tp B)) =
     int (length (concat (committed_batches
       (target_log (snd (migrate_table e t sp tp B))))))"
proof -
  obtain r st where body: "migrate_body e t sp tp B (initial_state t) = (r, st)"
    and res: "fst (migrate_table e t sp tp B) =
      (result st)\<lparr>error := (case r of Inl err \<Rightarrow> Some err | Inr u \<Rightarrow> error (result st)),
                   time_taken := elapsed e t (calls st)\<rparr>"
    and cl: "calls (snd (migrate_table e t sp tp B)) = calls st"
    and rd: "rounds (target_log (snd (migrate_table e t sp tp B))) = rounds (target_log st)"
    and acc: "accounted e sp tp t Map.empty st"
    by (rule migrate_table_accounted [of e t sp tp B Map.empty])
  note b = migrate_body_result(1-4) [OF body]
  have "success (fst (migrate_table e t sp tp B)) \<longleftrightarrow>
      error (fst (migrate_table e t sp tp B)) = None"
    using b(2,4) by (cases r) (simp_all add: res)
  moreover have "table (fst (migrate_table e t sp tp B)) = t"
    using b(1) by (simp add: res)
  moreover have "time_taken (fst (migrate_table e t sp tp B)) =
      elapsed e t (calls (snd (migrate_table e t sp tp B)))"
    by (simp add: res cl)
  moreover have "rows_migrated (fst (migrate_table e t sp tp B)) =
      int (length (concat (committed_batches
        (target_log (snd (migrate_table e t sp tp B))))))"
    using acc by (simp add: res accounted_def committed_batches_def rd)
  ultimately show ?thesis
    by simp
qed

text \<open>
  The copy of \<open>orders\<close> whose second commit fails.
\<close>

theorem result_invariant_witness:
  "fst (migrate_table failing_env ''orders'' demo_source demo_target 2) =
     \<lparr>table = ''orders'', success = False, rows_migrated = 2, error = Some ''commit failed'',
      time_taken = 0\<rparr> \<and>
   (success (fst (migrate_table failing_env ''orders'' demo_source demo_target 2)) \<longleftrightarrow>
      error (fst (migrate_table failing_env ''orders'' demo_source demo_target 2)) = None) \<and>
   table (fst (migrate_table failing_env ''orders'' demo_source demo_target 2)) = ''orders'' \<and>
   time_taken (fst (migrate_table failing_env ''orders'' demo_source demo_target 2)) =
     elapsed failing_env ''orders''
       (calls (snd (migrate_table failing_env ''orders'' demo_source demo_target 2))) \<and>
   rows_migrated (fst (migrate_table failing_env ''orders'' demo_source demo_target 2)) =
     int (length (concat (committed_batches
       (target_log (snd (migrate_table failing_env ''orders'' demo_source demo_target 2))))))"
proof -
  have "fst (migrate_table failing_env ''orders'' demo_source demo_target 2) =
     \<lparr>table = ''orders'', success = False, rows_migrated = 2, error = Some ''commit failed'',
      time_taken = 0\<rparr>"
    by code_simp
  then show ?thesis
    using result_invariant [of failing_env "''orders''" demo_source demo_target 2]
    by (rule conjI)
qed

text \<open>
  Claim C9, as amended. When the copy of a table fails, \<open>rows_migrated\<close> is the number
  of rows in the rounds whose \<open>commit()\<close> returned before the failure, and these rows
  are the first rows of the source table. At most one more batch was inserted, the one of
  the round in which \<open>commit()\<close> raised. A failure before the creation statement
  leaves no target table when the old one was already dropped, and otherwise leaves the
  target table with the content it had before the run. After the creation statement, when
  the translated definition names the target table, the target table holds the counted
  rows followed by that batch if there is one: the session commits each statement as it
  returns.
\<close>

theorem failed_copy_accounts:
  assumes "\<not> success (fst (migrate_table e t sp tp B))"
  shows "rows_migrated (fst (migrate_table e t sp tp B)) =
       int (length (concat (committed_batches
         (target_log (snd (migrate_table e t sp tp B)))))) \<and>
     concat (committed_batches (target_log (snd (migrate_table e t sp tp B)))) =
       take (nat (rows_migrated (fst (migrate_table e t sp tp B)))) (source_rows e sp t) \<and>
     length (snd (rounds (target_log (snd (migrate_table e t sp tp B))))) \<le> 1 \<and>
     (\<not> list_ex is_create (target_log (snd (migrate_table e t sp tp B))) \<longrightarrow>
      target_table e tp t prior (target_log (snd (migrate_table e t sp tp B))) =
        (if list_ex is_drop (target_log (snd (migrate_table e t sp tp B)))
         then None else prior (target_address tp t))) \<and>
     (list_ex is_create (target_log (snd (migrate_table e t sp tp B))) \<and>
      names_target e sp tp t \<longrightarrow>
      target_table e tp t prior (target_log (snd (migrate_table e t sp tp B))) =
        Some (concat
          (committed_batches (target_log (snd (migrate_table e t sp tp B))) @
           snd (rounds (target_log (snd (migrate_table e t sp tp B)))))))"
proof -
  obtain r st where body: "migrate_body e t sp tp B (initial_state t) = (r, st)"
    and res: "fst (migrate_table e t sp tp B) =
      (result st)\<lparr>error := (case r of Inl err \<Rightarrow> Some err | Inr u \<Rightarrow> error (result st)),
                   time_taken := elapsed e t (calls st)\<rparr>"
    and rd: "rounds (target_log (snd (migrate_table e t sp tp B))) = rounds (target_log st)"
    and ts: "target_tables e prior (target_log (snd (migrate_table e t sp tp B))) =
      target_tables e prior (target_log st)"
    and cr: "list_ex is_create (target_log (snd (migrate_table e t sp tp B))) =
      list_ex is_create (target_log st)"
    and dr: "list_ex is_drop (target_log (snd (migrate_table e t sp tp B))) =
      list_ex is_drop (target_log st)"
    and acc: "accounted e sp tp t prior st"
    by (rule migrate_table_accounted [of e t sp tp B prior])
  have rm: "rows_migrated (fst (migrate_table e t sp tp B)) = rows_migrated (result st)"
    by (simp add: res)
  have tt: "target_table e tp t prior (target_log (snd (migrate_table e t sp tp B))) =
      target_table e tp t prior (target_log st)"
    by (simp add: target_table_def ts)
  from acc show ?thesis
    by (simp add: rm accounted_def committed_batches_def rd tt cr dr)
qed

text \<open>
  The copy of \<open>orders\<close> whose second commit fails: one round of two rows is counted,
  the target table holds the rows of two batches, and the row it held before is gone.
  And the copy of \<open>orders\<close> from a source that cannot be reached: the target table
  holds the row it held before.
\<close>

theorem failed_copy_accounts_witness:
  "\<not> success (fst (migrate_table failing_env ''orders'' demo_source demo_target 2)) \<and>
   names_target failing_env demo_source demo_target ''orders'' \<and>
   list_ex is_create
     (target_log (snd (migrate_table failing_env ''orders'' demo_source demo_target 2))) \<and>
   rows_migrated (fst (migrate_table failing_env ''orders'' demo_source demo_target 2)) = 2 \<and>
   concat (committed_batches
     (target_log (snd (migrate_table failing_env ''orders'' demo_source demo_target 2)))) =
     [[''1''], [''2'']] \<and>
   target_table failing_env demo_target ''orders'' demo_prior
     (target_log (snd (migrate_table failing_env ''orders'' demo_source demo_target 2))) =
     Some [[''1''], [''2''], [''3''], [''4'']] \<and>
   \<not> success (fst (migrate_table unreachable_env ''orders'' demo_source demo_target 2)) \<and>
   \<not> list_ex is_create
     (target_log (snd (migrate_table unreachable_env ''orders'' demo_source demo_target 2))) \<and>
   target_table unreachable_env demo_target ''orders'' demo_prior
     (target_log (snd (migrate_table unreachable_env ''orders'' demo_source demo_target 2))) =
     Some [[''old'']]"
proof -
  let ?lg = "target_log (snd (migrate_table failing_env ''orders'' demo_source demo_target 2))"
  let ?lg' =
    "target_log (snd (migrate_table unreachable_env ''orders'' demo_source demo_target 2))"
  have h: "\<not> success (fst (migrate_table failing_env ''orders'' demo_source demo_target 2))"
    by code_simp
  have nt: "names_target failing_env demo_source demo_target ''orders''"
    by code_simp
  have c: "list_ex is_create ?lg"
    by code_simp
  have p: "concat (committed_batches ?lg @ snd (rounds ?lg)) =
      [[''1''], [''2''], [''3''], [''4'']]"
    by code_simp
  have s: "take 2 (source_rows failing_env demo_source ''orders'') = [[''1''], [''2'']]"
    by code_simp
  have n: "rows_migrated (fst (migrate_table failing_env ''orders'' demo_source demo_target 2))
      = 2"
    by code_simp
  have h': "\<not> success (fst (migrate_table unreachable_env ''orders'' demo_source demo_target 2))"
    by code_simp
  have c': "\<not> list_ex is_create ?lg'"
    by code_simp
  have d': "\<not> list_ex is_drop ?lg'"
    by code_simp
  have o: "demo_prior (target_address demo_target ''orders'') = Some [[''old'']]"
    by code_simp
  from failed_copy_accounts [OF h, of demo_prior] nt c p s n
  have 1: "concat (committed_batches ?lg) = [[''1''], [''2'']]"
    and 2: "target_table failing_env demo_target ''orders'' demo_prior ?lg =
      Some [[''1''], [''2''], [''3''], [''4'']]"
    by simp_all
  from failed_copy_accounts [OF h', of demo_prior] c' d' o
  have 3: "target_table unreachable_env demo_target ''orders'' demo_prior ?lg' =
      Some [[''old'']]"
    by simp
  from h nt c n 1 2 h' c' 3 show ?thesis
    by (intro conjI)
qed

text \<open>
  Claim C9 as stated fails in two ways. When the source cannot be reached, the failure
  comes before the target table is dropped: no round is committed, and the target table
  still holds the row it held before the run, not only committed batches. When the second
  \<open>commit()\<close> of the copy of \<open>orders\<close> raises, the count is that of the first
  round, 2, and the target table holds the four rows of the two batches inserted.
\<close>

theorem failed_copy_counterexample:
  "\<not> success (fst (migrate_table unreachable_env ''orders'' demo_source demo_target 2)) \<and>
   committed_batches
     (target_log (snd (migrate_table unreachable_env ''orders'' demo_source demo_target 2)))
     = [] \<and>
   target_table unreachable_env demo_target ''orders'' demo_prior
     (target_log (snd (migrate_table unreachable_env ''orders'' demo_source demo_target 2)))
     = Some [[''old'']] \<and>
   \<not> success (fst (migrate_table failing_env ''orders'' demo_source demo_target 2)) \<and>
   rows_migrated (fst (migrate_table failing_env ''orders'' demo_source demo_target 2)) = 2 \<and>
   committed_batches
     (target_log (snd (migrate_table failing_env ''orders'' demo_source demo_target 2)))
     = [[[''1''], [''2'']]] \<and>
   target_table failing_env demo_target ''orders'' demo_prior
     (target_log (snd (migrate_table failing_env ''orders'' demo_source demo_target 2)))
     = Some [[''1''], [''2''], [''3''], [''4'']]"
  by code_simp



text \<open>
  Claim C8, as amended. When the source qualifier does not occur in the fetched
  definition, the translation returns the definition unchanged and nothing is signalled:
  a creation statement \<open>migrate_table\<close> executes on the target is that unchanged
  definition, an error in the result is the text of an exception raised by a connector
  call, and when no connector call raises, the run is a success with no error that has
  executed the unchanged definition.
\<close>

theorem untranslated_definition_is_sent:
  assumes "find_table e (database sp) (schema sp) t = Some x"
    and "\<not> sublist (qualifier sp) (t_ddl x)" and "0 \<le> B"
  shows "translate_ddl sp tp (t_ddl x) = t_ddl x \<and>
     (\<forall>s. Execute (CreateStatement s) \<in> set (target_log (snd (migrate_table e t sp tp B)))
        \<longrightarrow> s = t_ddl x) \<and>
     (\<forall>err. error (fst (migrate_table e t sp tp B)) = Some err \<longrightarrow>
        (\<exists>n. faults e t n = Some err)) \<and>
     ((\<forall>n. faults e t n = None) \<longrightarrow>
        success (fst (migrate_table e t sp tp B)) \<and>
        error (fst (migrate_table e t sp tp B)) = None \<and>
        Execute (CreateStatement (t_ddl x))
          \<in> set (target_log (snd (migrate_table e t sp tp B))))"
proof -
  obtain r st xs ys where body: "migrate_body e t sp tp B (initial_state t) = (r, st)"
    and res: "fst (migrate_table e t sp tp B) =
      (result st)\<lparr>error := (case r of Inl err \<Rightarrow> Some err | Inr u \<Rightarrow> error (result st)),
                   time_taken := elapsed e t (calls st)\<rparr>"
    and xs: "set xs \<subseteq> {CloseCursor, CloseConnection}"
    and lg: "target_log (snd (migrate_table e t sp tp B)) = target_log st @ xs"
    by (rule migrate_table_unfold)
  note b = migrate_body_result(2,4) [OF body]
  have ddl: "source_ddl e sp t = t_ddl x"
    by (simp add: source_ddl_def assms(1))
  have same: "translate_ddl sp tp (t_ddl x) = t_ddl x"
    using replace_scan_absent [OF assms(2)]
    by (simp add: translate_ddl_def str_replace_def qualifier_nonempty)
  have sent: "s = t_ddl x"
    if "Execute (CreateStatement s) \<in> set (target_log (snd (migrate_table e t sp tp B)))"
    for s
  proof -
    from that have "Execute (CreateStatement s) \<in> set (target_log st)"
      by (simp only: lg closes_ignored(7) [OF xs])
    from migrate_body_create [OF body this] show ?thesis
      by (simp add: ddl same)
  qed
  have raised: "\<exists>n. faults e t n = Some err"
    if "error (fst (migrate_table e t sp tp B)) = Some err" for err
  proof (cases r)
    case (Inl err')
    with that have "err' = err"
      by (simp add: res)
    with body Inl show ?thesis
      using migrate_body_error [OF _ assms(1,3)] by simp
  next
    case (Inr u)
    with that b(1) show ?thesis
      by (simp add: res)
  qed
  have quiet: "success (fst (migrate_table e t sp tp B)) \<and>
      error (fst (migrate_table e t sp tp B)) = None \<and>
      Execute (CreateStatement (t_ddl x)) \<in> set (target_log (snd (migrate_table e t sp tp B)))"
    if none: "\<forall>n. faults e t n = None"
  proof -
    have r: "r = Inr ()"
    proof (cases r)
      case (Inl err)
      with body migrate_body_error [OF _ assms(1,3)] none show ?thesis
        by fastforce
    qed simp
    from migrate_body_success [OF body [unfolded r]]
    have "list_ex is_create (target_log st)"
      by simp
    then obtain s where "Execute (CreateStatement s) \<in> set (target_log st)"
      by (auto simp: is_create_iff)
    then have s: "Execute (CreateStatement s)
        \<in> set (target_log (snd (migrate_table e t sp tp B)))"
      by (simp only: lg closes_ignored(7) [OF xs])
    from sent [OF s] s have "Execute (CreateStatement (t_ddl x))
        \<in> set (target_log (snd (migrate_table e t sp tp B)))"
      by simp
    with b r show ?thesis
      by (simp add: res)
  qed
  from same sent raised quiet show ?thesis
    by blast
qed

text \<open>
  The definition of \<open>customers\<close> does not name its schema. When no call fails, the
  run succeeds and has executed the definition as it was fetched; when the source
  cannot be reached, the error of the result is the text of that failure.
\<close>

theorem untranslated_definition_is_sent_witness:
  "\<not> sublist (qualifier demo_source) (t_ddl customers) \<and>
   translate_ddl demo_source demo_target (t_ddl customers) = t_ddl customers \<and>
   success (fst (migrate_table demo_env ''customers'' demo_source demo_target 2)) \<and>
   error (fst (migrate_table demo_env ''customers'' demo_source demo_target 2)) = None \<and>
   Execute (CreateStatement (t_ddl customers))
     \<in> set (target_log (snd (migrate_table demo_env ''customers'' demo_source demo_target 2))) \<and>
   error (fst (migrate_table unreachable_env ''customers'' demo_source demo_target 2)) =
     Some ''connection refused'' \<and>
   (\<exists>n. faults unreachable_env ''customers'' n = Some ''connection refused'')"
proof -
  have f: "find_table demo_env (database demo_source) (schema demo_source) ''customers'' =
      Some customers"
    by code_simp
  have f': "find_table unreachable_env (database demo_source) (schema demo_source)
      ''customers'' = Some customers"
    by code_simp
  have n: "\<not> sublist (qualifier demo_source) (t_ddl customers)"
    by code_simp
  have b: "(0::int) \<le> 2"
    by simp
  have q: "\<forall>n. faults demo_env ''customers'' n = None"
    by (simp add: demo_env_def)
  have u: "error (fst (migrate_table unreachable_env ''customers'' demo_source demo_target 2))
      = Some ''connection refused''"
    by code_simp
  from untranslated_definition_is_sent [OF f n b, of demo_target] q
  have 1: "translate_ddl demo_source demo_target (t_ddl customers) = t_ddl customers"
    and 2: "success (fst (migrate_table demo_env ''customers'' demo_source demo_target 2))"
    and 3: "error (fst (migrate_table demo_env ''customers'' demo_source demo_target 2)) = None"
    and 4: "Execute (CreateStatement (t_ddl customers))
     \<in> set (target_log (snd (migrate_table demo_env ''customers'' demo_source demo_target 2)))"
    by simp_all
  from untranslated_definition_is_sent [OF f' n b, of demo_target] u
  have 5: "\<exists>n. faults unreachable_env ''customers'' n = Some ''connection refused''"
    by simp
  from n 1 2 3 4 u 5 show ?thesis
    by (intro conjI)
qed

text \<open>
  Claim C8 as stated fails: the definition of \<open>customers\<close> lacks the source qualifier,
  and the run ends as any successful run does, with no error in its result and with the
  unchanged definition executed on the target between the drop and the commit.
\<close>

theorem silent_translation_counterexample:
  "\<not> sublist (qualifier demo_source) (t_ddl customers) \<and>
   find_table demo_env (database demo_source) (schema demo_source) ''customers'' =
     Some customers \<and>
   fst (migrate_table demo_env ''customers'' demo_source demo_target 2) =
     \<lparr>table = ''customers'', success = True, rows_migrated = 0, error = None,
      time_taken = 0\<rparr> \<and>
   target_log (snd (migrate_table demo_env ''customers'' demo_source demo_target 2)) =
     [Connect demo_target, Cursor, Execute (DropTableIfExists ''TDB'' ''T'' ''customers''),
      Execute (CreateStatement (t_ddl customers)), Commit, CloseCursor, CloseConnection]"
  by code_simp

text \<open>
  Claim C1. When the tables can be listed, the pool can be created and every task
  completes, \<open>migrate_all_tables\<close> returns, whatever calls fail in the tasks: no
  exception of a task leaves it. It returns one result for each table. The result of a
  table whose \<open>try\<close> block raised has \<open>success\<close> false and holds the text of the
  exception in \<open>error\<close>; and the result of a table is the same in every environment
  that differs only in the faults and times of the other tables.
\<close>

theorem failures_are_collected:
  assumes "get_tables e sp = Inr tables" and "0 < mw"
    and "{0..<length tables} \<subseteq> set sched"
  shows "\<exists>rs. migrate_all_tables e sp tp B mw sched = Returned rs \<and> map table rs = tables \<and>
     (\<forall>i<length tables.
        (\<forall>err. fst (migrate_body e (tables ! i) sp tp B (initial_state (tables ! i))) = Inl err
           \<longrightarrow> \<not> success (rs ! i) \<and> error (rs ! i) = Some err) \<and>
        (\<forall>e'. same_for e e' (tables ! i) \<longrightarrow>
           rs ! i = fst (migrate_table e' (tables ! i) sp tp B)))"
proof -
  let ?rs = "map (\<lambda>t. fst (migrate_table e t sp tp B)) tables"
  have run: "migrate_all_tables e sp tp B mw sched = Returned ?rs"
    by (rule migrate_all_fair [OF assms])
  have names: "map table ?rs = tables"
    by (rule migrate_all_names)
  have each: "(\<forall>err. fst (migrate_body e (tables ! i) sp tp B (initial_state (tables ! i)))
          = Inl err \<longrightarrow> \<not> success (?rs ! i) \<and> error (?rs ! i) = Some err) \<and>
      (\<forall>e'. same_for e e' (tables ! i) \<longrightarrow>
          ?rs ! i = fst (migrate_table e' (tables ! i) sp tp B))"
    if i: "i < length tables" for i
  proof -
    let ?t = "tables ! i"
    obtain r st where body: "migrate_body e ?t sp tp B (initial_state ?t) = (r, st)"
      and res: "fst (migrate_table e ?t sp tp B) =
        (result st)\<lparr>error := (case r of Inl err \<Rightarrow> Some err | Inr u \<Rightarrow> error (result st)),
                     time_taken := elapsed e ?t (calls st)\<rparr>"
      by (rule migrate_table_accounted [of e ?t sp tp B Map.empty])
    have nth: "?rs ! i = fst (migrate_table e ?t sp tp B)"
      using i by simp
    have "\<not> success (?rs ! i) \<and> error (?rs ! i) = Some err"
      if "fst (migrate_body e ?t sp tp B (initial_state ?t)) = Inl err" for err
    proof -
      from that body have r: "r = Inl err"
        by simp
      with migrate_body_result(4) [OF body] have "\<not> success (result st)"
        by simp
      with r show ?thesis
        by (simp add: nth res)
    qed
    moreover have "?rs ! i = fst (migrate_table e' ?t sp tp B)" if "same_for e e' ?t" for e'
      using migrate_table_same [OF that, of sp tp B] by (simp add: nth)
    ultimately show ?thesis
      by blast
  qed
  from run names each show ?thesis
    by blast
qed

text \<open>
  The second commit of \<open>orders\<close> fails, \<open>customers\<close> completes first: both results
  are returned, the failure in the first, and the result of \<open>customers\<close> is the one it
  has when nothing fails.
\<close>

theorem failures_are_collected_witness:
  "get_tables failing_env demo_source = Inr [''orders'', ''customers''] \<and>
   fst (migrate_body failing_env ''orders'' demo_source demo_target 2
     (initial_state ''orders'')) = Inl ''commit failed'' \<and>
   same_for failing_env demo_env ''customers'' \<and>
   (\<exists>rs. migrate_all_tables failing_env demo_source demo_target 2 4 [1, 0] = Returned rs \<and>
      map table rs = [''orders'', ''customers''] \<and>
      \<not> success (rs ! 0) \<and> error (rs ! 0) = Some ''commit failed'' \<and>
      rs ! 1 = fst (migrate_table demo_env ''customers'' demo_source demo_target 2))"
proof -
  have g: "get_tables failing_env demo_source = Inr [''orders'', ''customers'']"
    by code_simp
  have m: "(0::int) < 4"
    by simp
  have s: "{0..<length [''orders'', ''customers'']} \<subseteq> set [1, 0::nat]"
    by auto
  have b: "fst (migrate_body failing_env ''orders'' demo_source demo_target 2
      (initial_state ''orders'')) = Inl ''commit failed''"
    by code_simp
  have f: "same_for failing_env demo_env ''customers''"
    by (simp add: same_for_def failing_env_def demo_env_def)
  from failures_are_collected [OF g m s, of demo_target 2]
  obtain rs where run: "migrate_all_tables failing_env demo_source demo_target 2 4 [1, 0]
      = Returned rs"
    and names: "map table rs = [''orders'', ''customers'']"
    and each: "\<forall>i<length [''orders'', ''customers''].
        (\<forall>err. fst (migrate_body failing_env ([''orders'', ''customers''] ! i) demo_source
              demo_target 2 (initial_state ([''orders'', ''customers''] ! i))) = Inl err
           \<longrightarrow> \<not> success (rs ! i) \<and> error (rs ! i) = Some err) \<and>
        (\<forall>e'. same_for failing_env e' ([''orders'', ''customers''] ! i) \<longrightarrow>
           rs ! i = fst (migrate_table e' ([''orders'', ''customers''] ! i) demo_source
             demo_target 2))"
    by (elim exE conjE)
  from each [rule_format, of 0] b
  have 0: "\<not> success (rs ! 0) \<and> error (rs ! 0) = Some ''commit failed''"
    by simp
  from each [rule_format, of 1] f
  have 1: "rs ! 1 = fst (migrate_table demo_env ''customers'' demo_source demo_target 2)"
    by simp
  from run names 0 1
  have "\<exists>rs. migrate_all_tables failing_env demo_source demo_target 2 4 [1, 0] = Returned rs \<and>
      map table rs = [''orders'', ''customers''] \<and>
      \<not> success (rs ! 0) \<and> error (rs ! 0) = Some ''commit failed'' \<and>
      rs ! 1 = fst (migrate_table demo_env ''customers'' demo_source demo_target 2)"
    by (intro exI [of _ rs]) simp
  with g b f show ?thesis
    by (intro conjI)
qed

text \<open>
  Claim C2. For any concurrency limit of at least 1 and any order in which the tasks
  complete, \<open>migrate_all_tables\<close> returns, and the sequence it returns has as many
  results as there are tables, with the tables as the table names of the results: each
  once when the tables are without duplicates.
\<close>

theorem one_result_per_table:
  assumes "get_tables e sp = Inr tables" and "0 < mw"
    and "{0..<length tables} \<subseteq> set sched"
  shows "\<exists>rs. migrate_all_tables e sp tp B mw sched = Returned rs \<and>
     length rs = length tables \<and> set (map table rs) = set tables \<and>
     map table rs = tables \<and> (distinct tables \<longrightarrow> distinct (map table rs))"
proof -
  let ?rs = "map (\<lambda>t. fst (migrate_table e t sp tp B)) tables"
  have run: "migrate_all_tables e sp tp B mw sched = Returned ?rs"
    by (rule migrate_all_fair [OF assms])
  have names: "map table ?rs = tables"
    by (rule migrate_all_names)
  then have "length ?rs = length tables \<and> set (map table ?rs) = set tables \<and>
     map table ?rs = tables \<and> (distinct tables \<longrightarrow> distinct (map table ?rs))"
    by (metis length_map)
  with run show ?thesis
    by (intro exI [of _ ?rs] conjI) simp_all
qed

text \<open>
  The example schema with a single worker.
\<close>

theorem one_result_per_table_witness:
  "get_tables demo_env demo_source = Inr [''orders'', ''customers''] \<and>
   distinct [''orders'', ''customers''] \<and>
   (\<exists>rs. migrate_all_tables demo_env demo_source demo_target 2 1 [0, 1] = Returned rs \<and>
      length rs = 2 \<and> set (map table rs) = {''orders'', ''customers''} \<and>
      map table rs = [''orders'', ''customers''] \<and> distinct (map table rs))"
proof -
  have g: "get_tables demo_env demo_source = Inr [''orders'', ''customers'']"
    by code_simp
  have m: "(0::int) < 1"
    by simp
  have s: "{0..<length [''orders'', ''customers'']} \<subseteq> set [0, 1::nat]"
    by auto
  have d: "distinct [''orders'', ''customers'']"
    by simp
  from one_result_per_table [OF g m s, of demo_target 2] d
  have "\<exists>rs. migrate_all_tables demo_env demo_source demo_target 2 1 [0, 1] = Returned rs \<and>
      length rs = 2 \<and> set (map table rs) = {''orders'', ''customers''} \<and>
      map table rs = [''orders'', ''customers''] \<and> distinct (map table rs)"
    by (simp add: numeral_2_eq_2)
  with g d show ?thesis
    by (intro conjI)
qed

text \<open>
  Claim C5, as amended. \<open>migrate_all_tables\<close> has no parameter for the tables. The
  tables it migrates are those \<open>get_tables\<close> lists for the source parameters: when
  they can be listed, with at least one worker and every task completing, it returns one
  result for each of them, the result of \<open>migrate_table\<close> for that table, and no other.
\<close>

theorem migrates_listed_tables:
  assumes "get_tables e sp = Inr tables" and "0 < mw"
    and "{0..<length tables} \<subseteq> set sched"
  shows "migrate_all_tables e sp tp B mw sched =
       Returned (map (\<lambda>t. fst (migrate_table e t sp tp B)) tables) \<and>
     map table (map (\<lambda>t. fst (migrate_table e t sp tp B)) tables) = tables"
proof -
  have "migrate_all_tables e sp tp B mw sched =
      Returned (map (\<lambda>t. fst (migrate_table e t sp tp B)) tables)"
    by (rule migrate_all_fair [OF assms])
  moreover have "map table (map (\<lambda>t. fst (migrate_table e t sp tp B)) tables) = tables"
    by (rule migrate_all_names)
  ultimately show ?thesis
    by (rule conjI)
qed

text \<open>
  The example schema.
\<close>

theorem migrates_listed_tables_witness:
  "get_tables demo_env demo_source = Inr [''orders'', ''customers''] \<and>
   migrate_all_tables demo_env demo_source demo_target 2 4 [0, 1] =
     Returned
      [fst (migrate_table demo_env ''orders'' demo_source demo_target 2),
       fst (migrate_table demo_env ''customers'' demo_source demo_target 2)] \<and>
   map table
      [fst (migrate_table demo_env ''orders'' demo_source demo_target 2),
       fst (migrate_table demo_env ''customers'' demo_source demo_target 2)] =
     [''orders'', ''customers'']"
proof -
  have g: "get_tables demo_env demo_source = Inr [''orders'', ''customers'']"
    by code_simp
  have m: "(0::int) < 4"
    by simp
  have s: "{0..<length [''orders'', ''customers'']} \<subseteq> set [0, 1::nat]"
    by auto
  from migrates_listed_tables [OF g m s, of demo_target 2] g show ?thesis
    by simp
qed

text \<open>
  Claim C5 as stated fails: a caller that wants \<open>orders\<close> alone has no argument to say
  so, and the run over the example schema returns results for both of its tables.
\<close>

theorem no_table_selection_counterexample:
  "map_option (map table)
     (returned (migrate_all_tables demo_env demo_source demo_target 2 4 [0, 1])) =
     Some [''orders'', ''customers''] \<and>
   [''orders'', ''customers''] \<noteq> [''orders'']"
  by code_simp

text \<open>
  Claim C6, as amended. The sequence \<open>migrate_all_tables\<close> returns does not depend on
  the order in which the tasks complete, nor on the number of workers: any two runs in the
  same environment that return, return the same sequence, and its order is the order of
  the table list, the order of submission.
\<close>

theorem results_in_submission_order:
  assumes "migrate_all_tables e sp tp B mw sched = Returned rs"
    and "migrate_all_tables e sp tp B mw' sched' = Returned rs'"
  shows "rs' = rs \<and> get_tables e sp = Inr (map table rs)"
proof -
  from migrate_all_returned [OF assms(1)] obtain tables
    where t: "get_tables e sp = Inr tables"
      and rs: "rs = map (\<lambda>t. fst (migrate_table e t sp tp B)) tables"
    by blast
  from migrate_all_returned [OF assms(2)] t
  have rs': "rs' = map (\<lambda>t. fst (migrate_table e t sp tp B)) tables"
    by simp
  from rs have "map table rs = tables"
    by (simp only: migrate_all_names)
  with t rs rs' show ?thesis
    by simp
qed

text \<open>
  Two runs with different numbers of workers and opposite completion orders.
\<close>

theorem results_in_submission_order_witness:
  "migrate_all_tables failing_env demo_source demo_target 2 4 [0, 1] =
     migrate_all_tables failing_env demo_source demo_target 2 2 [1, 0] \<and>
   get_tables failing_env demo_source = Inr [''orders'', ''customers'']"
proof -
  have a: "migrate_all_tables failing_env demo_source demo_target 2 4 [0, 1] =
     Returned
      [\<lparr>table = ''orders'', success = False, rows_migrated = 2,
         error = Some ''commit failed'', time_taken = 0\<rparr>,
       \<lparr>table = ''customers'', success = True, rows_migrated = 0, error = None,
         time_taken = 0\<rparr>]"
    by code_simp
  have b: "migrate_all_tables failing_env demo_source demo_target 2 2 [1, 0] =
     Returned
      [\<lparr>table = ''orders'', success = False, rows_migrated = 2,
         error = Some ''commit failed'', time_taken = 0\<rparr>,
       \<lparr>table = ''customers'', success = True, rows_migrated = 0, error = None,
         time_taken = 0\<rparr>]"
    by code_simp
  from results_in_submission_order [OF a b] a b show ?thesis
    by simp
qed

text \<open>
  Claim C6 as stated fails: with \<open>customers\<close> completing before \<open>orders\<close> the
  results come in the same order as with \<open>orders\<close> completing first, the order of
  submission.
\<close>

theorem completion_order_counterexample:
  "returned (migrate_all_tables demo_env demo_source demo_target 2 4 [0, 1]) =
     returned (migrate_all_tables demo_env demo_source demo_target 2 4 [1, 0]) \<and>
   map_option (map table)
     (returned (migrate_all_tables demo_env demo_source demo_target 2 4 [1, 0])) =
     Some [''orders'', ''customers'']"
  by code_simp

text \<open>
  Claim C4. For a source table of \<open>R\<close> rows and a batch size \<open>B\<close> of at least 1, a
  copy that succeeds inserts \<open>ceil(R / B)\<close> batches: batch \<open>i\<close> is the rows from
  \<open>i * B\<close> on, at most \<open>B\<close> of them, so that \<open>R div B\<close> batches have \<open>B\<close>
  rows and a last one has \<open>R mod B\<close> rows when \<open>B\<close> does not divide \<open>R\<close>. The
  pages requested are \<open>LIMIT B OFFSET i * B\<close> for \<open>i\<close> from 0 to \<open>ceil(R / B)\<close>,
  one more than there are batches: the last page requested is empty and ends the loop.
\<close>

theorem copy_rounds:
  assumes "0 < B" and "find_table e (database sp) (schema sp) t = Some x"
    and "success (fst (migrate_table e t sp tp B))"
  shows "insert_batches (target_log (snd (migrate_table e t sp tp B))) =
       map (\<lambda>i. take (nat B) (drop (i * nat B) (t_rows x)))
         [0..<(length (t_rows x) + nat B - 1) div nat B] \<and>
     map length (insert_batches (target_log (snd (migrate_table e t sp tp B)))) =
       replicate (length (t_rows x) div nat B) (nat B) @
       (if length (t_rows x) mod nat B = 0 then [] else [length (t_rows x) mod nat B]) \<and>
     page_requests (source_log (snd (migrate_table e t sp tp B))) =
       map (\<lambda>i. (B, int i * B)) [0..<Suc ((length (t_rows x) + nat B - 1) div nat B)] \<and>
     take (nat B) (drop ((length (t_rows x) + nat B - 1) div nat B * nat B) (t_rows x)) = []"
proof -
  let ?n = "(length (t_rows x) + nat B - 1) div nat B"
  have b: "0 < nat B"
    using assms(1) by simp
  obtain r st xs ys where body: "migrate_body e t sp tp B (initial_state t) = (r, st)"
    and res: "fst (migrate_table e t sp tp B) =
      (result st)\<lparr>error := (case r of Inl err \<Rightarrow> Some err | Inr u \<Rightarrow> error (result st)),
                   time_taken := elapsed e t (calls st)\<rparr>"
    and xs: "set xs \<subseteq> {CloseCursor, CloseConnection}"
    and tl: "target_log (snd (migrate_table e t sp tp B)) = target_log st @ xs"
    and ys: "set ys \<subseteq> {CloseCursor, CloseConnection}"
    and sl: "source_log (snd (migrate_table e t sp tp B)) = source_log st @ ys"
    by (rule migrate_table_unfold)
  from assms(3) have "success (result st)"
    by (simp add: res)
  with migrate_body_result(4) [OF body] have "r = Inr ()"
    by simp
  with body have "migrate_body e t sp tp B (initial_state t) = (Inr (), st)"
    by simp
  then obtain columns s1 s2 where
    s1: "recreate_table e t sp tp (initial_state t) = (Inr columns, s1)"
    and loop: "copy_loop e t sp tp B columns (join '', '' columns) 0 0 s1 = (Inr (), s2)"
    and st: "st = s2\<lparr>result := (result s2)\<lparr>success := True\<rparr>\<rparr>"
    by (cases rule: migrate_body_cases) simp_all
  from recreate_table_Inr [OF s1]
  have p0: "page_requests (source_log s1) = []" and i0: "insert_batches (target_log s1) = []"
    by (auto simp: recreate_calls_def)
  have rows: "source_rows e sp t = t_rows x"
    by (simp add: source_rows_def assms(2))
  from copy_loop_rounds [OF loop assms(1)]
  have p: "page_requests (source_log st) = map (\<lambda>i. (B, int i * B)) [0..<Suc ?n]"
    and i: "insert_batches (target_log st) =
        map (\<lambda>i. take (nat B) (drop (i * nat B) (t_rows x))) [0..<?n]"
    by (simp_all add: p0 i0 rows st)
  have 1: "insert_batches (target_log (snd (migrate_table e t sp tp B))) =
      map (\<lambda>i. take (nat B) (drop (i * nat B) (t_rows x))) [0..<?n]"
    by (simp only: tl closes_ignored(6) [OF xs] i)
  have 2: "page_requests (source_log (snd (migrate_table e t sp tp B))) =
      map (\<lambda>i. (B, int i * B)) [0..<Suc ?n]"
    by (simp only: sl closes_ignored(5) [OF ys] p)
  have 3: "map length (insert_batches (target_log (snd (migrate_table e t sp tp B)))) =
      replicate (length (t_rows x) div nat B) (nat B) @
      (if length (t_rows x) mod nat B = 0 then [] else [length (t_rows x) mod nat B])"
    by (simp only: 1 batch_sizes [OF b])
  from 1 2 3 last_page_empty [OF b, of "t_rows x"] show ?thesis
    by (intro conjI)
qed

text \<open>
  The five rows of \<open>orders\<close> with batch size 2: three batches of 2, 2 and 1 rows, and
  four pages requested.
\<close>

theorem copy_rounds_witness:
  "insert_batches
     (target_log (snd (migrate_table demo_env ''orders'' demo_source demo_target 2))) =
     [[[''1''], [''2'']], [[''3''], [''4'']], [[''5'']]] \<and>
   map length (insert_batches
     (target_log (snd (migrate_table demo_env ''orders'' demo_source demo_target 2)))) =
     [2, 2, 1] \<and>
   page_requests
     (source_log (snd (migrate_table demo_env ''orders'' demo_source demo_target 2))) =
     [(2, 0), (2, 2), (2, 4), (2, 6)]"
proof -
  have b: "(0::int) < 2"
    by simp
  have f: "find_table demo_env (database demo_source) (schema demo_source) ''orders'' =
      Some orders"
    by code_simp
  have h: "success (fst (migrate_table demo_env ''orders'' demo_source demo_target 2))"
    by code_simp
  have 1: "map (\<lambda>i. take (nat 2) (drop (i * nat 2) (t_rows orders)))
        [0..<(length (t_rows orders) + nat 2 - 1) div nat 2] =
      [[[''1''], [''2'']], [[''3''], [''4'']], [[''5'']]]"
    by code_simp
  have 2: "replicate (length (t_rows orders) div nat 2) (nat 2) @
      (if length (t_rows orders) mod nat 2 = 0 then []
       else [length (t_rows orders) mod nat 2]) = [2, 2, 1]"
    by code_simp
  have 3: "map (\<lambda>i. (2::int, int i * 2))
        [0..<Suc ((length (t_rows orders) + nat 2 - 1) div nat 2)] =
      [(2, 0), (2, 2), (2, 4), (2, 6)]"
    by code_simp
  from copy_rounds [OF b f h, unfolded 1 2 3] show ?thesis
    by (elim conjE) (intro conjI)
qed

end
